theory Spec2Isabelle
  imports Complex_Main "HOL-Library.Word" "HOL-Library.AList"
begin

section \<open>Python values, strings and exceptions\<close>

text \<open>
  The module \<^verbatim>\<open>app/services/reverse/assets_download.py\<close> is embedded function by
  function. Values whose Python type is open (what a configuration lookup returns, what
  a detail mapping stores) are values of \<open>pyval\<close>. A Python \<open>str\<close> is a \<open>string\<close>
  whose characters are the code points below 256 (HTTP header text is Latin-1, and no
  character above 255 lowercases to a letter of the extension table).
\<close>

datatype pyval = PNone | PInt int | PStr string

fun truthy :: "pyval \<Rightarrow> bool" where
  "truthy PNone = False"
| "truthy (PInt n) = (n \<noteq> 0)"
| "truthy (PStr s) = (s \<noteq> [])"

type_synonym bytes = "8 word list"

text \<open>A \<open>dict\<close> keeps its keys in insertion order: an association list with distinct keys.\<close>

type_synonym header_dict = "(string \<times> string) list"

text \<open>
  \<open>exn\<close> are the instances of \<^verbatim>\<open>Exception\<close>. \<^verbatim>\<open>UpstreamException(message=, details=)\<close>
  carries the two fields this module sets and reads; every other exception carries its
  type name (\<^verbatim>\<open>type(e).__name__\<close>) and its text (\<^verbatim>\<open>str(e)\<close>).
\<close>

datatype exn =
    UpstreamException string "(string \<times> pyval) list"
  | OtherException string string

fun is_upstream :: "exn \<Rightarrow> bool" where
  "is_upstream (UpstreamException m d) = True"
| "is_upstream (OtherException t s) = False"

subsection \<open>\<^verbatim>\<open>str.isspace\<close>, \<^verbatim>\<open>str.strip\<close>, \<^verbatim>\<open>str.lower\<close>, \<^verbatim>\<open>str.startswith\<close>, \<^verbatim>\<open>str(int)\<close>\<close>

definition py_isspace :: "char \<Rightarrow> bool" where
  "py_isspace c = (of_char c \<in> {9, 10, 11, 12, 13, 28, 29, 30, 31, 32, 133, 160 :: nat})"

definition strip :: "string \<Rightarrow> string" where
  "strip s = rev (dropWhile py_isspace (rev (dropWhile py_isspace s)))"

definition py_lower_char :: "char \<Rightarrow> char" where
  "py_lower_char c =
     (let n = (of_char c :: nat) in
      if (65 \<le> n \<and> n \<le> 90) \<or> (192 \<le> n \<and> n \<le> 222 \<and> n \<noteq> 215)
      then char_of (n + 32) else c)"

definition lower :: "string \<Rightarrow> string" where
  "lower s = map py_lower_char s"

definition startswith :: "string \<Rightarrow> string \<Rightarrow> bool" where
  "startswith s p = (take (length p) s = p)"

fun str_nat :: "nat \<Rightarrow> string" where
  "str_nat n =
     (if n < 10 then [''0123456789'' ! n]
      else str_nat (n div 10) @ [''0123456789'' ! (n mod 10)])"

declare str_nat.simps [simp del]

definition str_int :: "int \<Rightarrow> string" where
  "str_int i = (if i < 0 then CHR ''-'' # str_nat (nat (- i)) else str_nat (nat i))"

section \<open>Responses\<close>

text \<open>The response object of \<^verbatim>\<open>session.get\<close> (curl\_cffi), as far as the module reads it.\<close>

record curl_response =
  curl_status_code :: int
  curl_headers :: header_dict
  curl_body :: bytes

text \<open>The dataclass \<^verbatim>\<open>_SimpleResponse\<close>.\<close>

record SimpleResponse =
  status_code :: int
  headers :: header_dict
  content :: bytes

datatype response = Curl curl_response | Simple SimpleResponse

subsection \<open>\<^verbatim>\<open>_SimpleResponse.aiter_content\<close>\<close>

text \<open>\<^verbatim>\<open>data[i:j]\<close> for \<open>0 \<le> i \<le> j\<close>.\<close>

definition py_slice :: "'a list \<Rightarrow> nat \<Rightarrow> nat \<Rightarrow> 'a list" where
  "py_slice xs i j = take (j - i) (drop i xs)"

text \<open>\<^verbatim>\<open>range(i, n, c)\<close> for a positive step \<open>c\<close>.\<close>

function range_from :: "nat \<Rightarrow> nat \<Rightarrow> nat \<Rightarrow> nat list" where
  "range_from i n c = (if c = 0 \<or> n \<le> i then [] else i # range_from (i + c) n c)"
  by pat_completeness auto
termination
  by (relation "measure (\<lambda>(i, n, c). n - i)") auto

declare range_from.simps [simp del]

text \<open>
  The generator, as the list of the chunks it yields. \<^verbatim>\<open>range\<close> raises on a zero step
  and is empty for a negative one.
\<close>

definition aiter_content :: "SimpleResponse \<Rightarrow> int \<Rightarrow> exn + bytes list" where
  "aiter_content self chunk_size =
     (let data = (if content self \<noteq> [] then content self else []) in
      if chunk_size = 0
      then Inl (OtherException ''ValueError'' ''range() arg 3 must not be zero'')
      else if chunk_size < 0 then Inr []
      else Inr (map (\<lambda>i. py_slice data i (i + nat chunk_size))
                    (range_from 0 (length data) (nat chunk_size))))"

text \<open>The default argument \<^verbatim>\<open>chunk_size = 64 * 1024\<close>.\<close>

definition aiter_content_default :: "SimpleResponse \<Rightarrow> exn + bytes list" where
  "aiter_content_default self = aiter_content self (64 * 1024)"

text \<open>\<open>\<lceil>n / c\<rceil>\<close> on natural numbers.\<close>

definition ceil_div :: "nat \<Rightarrow> nat \<Rightarrow> nat" where
  "ceil_div n c = (n + c - 1) div c"

section \<open>The environment of a download\<close>

text \<open>
  What the module does to the outside is recorded as a list of events, in order. The
  answers of the outside are functions of the events so far, so that the same request
  may be answered differently the second time.
\<close>

record get_kwargs =
  kw_headers :: header_dict
  kw_timeout :: pyval
  kw_allow_redirects :: bool
  kw_stream :: bool
  kw_proxies :: "(string \<times> string) list option"
  kw_impersonate :: "pyval option"

datatype event =
    SessionGet string get_kwargs
  | UrlOpen string header_dict pyval
  | LogError string string
  | LogWarning string
  | RecordFail string pyval string
  | Backoff

text \<open>The argument \<^verbatim>\<open>session\<close>: what \<^verbatim>\<open>session.get(url, **kwargs)\<close> returns or raises.\<close>

type_synonym session = "event list \<Rightarrow> string \<Rightarrow> get_kwargs \<Rightarrow> exn + curl_response"

text \<open>
  The object \<^verbatim>\<open>urllib.request.urlopen\<close> returns: its \<^verbatim>\<open>status\<close> attribute (missing,
  \<^verbatim>\<open>None\<close> or an integer), \<^verbatim>\<open>headers.items()\<close> and \<^verbatim>\<open>read()\<close>.
\<close>

datatype status_attr = StatusMissing | StatusNone | StatusInt int

record urllib_response =
  resp_status :: status_attr
  resp_header_items :: "(string \<times> string) list"
  resp_body :: bytes

text \<open>
  The collaborators the module imports. \<open>get_config\<close>, \<open>build_headers\<close> and
  \<open>record_fail\<close> are the imported functions of these names; \<open>urlopen\<close> is
  \<^verbatim>\<open>urllib.request.urlopen\<close> on the \<^verbatim>\<open>GET\<close> request; \<open>urlparse_path\<close> is
  \<^verbatim>\<open>urllib.parse.urlparse(p).path\<close> and \<open>path_suffix\<close> is \<^verbatim>\<open>pathlib.Path(p).suffix\<close>;
  \<open>str_upstream\<close> is \<^verbatim>\<open>str(e)\<close> and \<open>status_code_attr\<close> is
  \<^verbatim>\<open>getattr(e, "status_code", None)\<close> for an \<^verbatim>\<open>UpstreamException\<close>, whose class is
  imported.
\<close>

record env =
  get_config :: "string \<Rightarrow> exn + pyval"
  build_headers :: "string \<Rightarrow> string option \<Rightarrow> string \<Rightarrow> string \<Rightarrow> exn + header_dict"
  urlopen :: "event list \<Rightarrow> string \<Rightarrow> header_dict \<Rightarrow> pyval \<Rightarrow> exn + urllib_response"
  record_fail :: "event list \<Rightarrow> string \<Rightarrow> pyval \<Rightarrow> string \<Rightarrow> exn option"
  urlparse_path :: "string \<Rightarrow> exn + string"
  path_suffix :: "string \<Rightarrow> string"
  str_upstream :: "exn \<Rightarrow> string"
  status_code_attr :: "exn \<Rightarrow> pyval"
  max_attempts :: nat
  retry_status_codes :: "pyval list"

text \<open>
  \<^verbatim>\<open>urllib.request.urlopen\<close> on an \<^verbatim>\<open>https\<close> URL, as the standard library has it
  (\<^verbatim>\<open>HTTPErrorProcessor\<close> and \<^verbatim>\<open>HTTPDefaultErrorHandler\<close> of \<^verbatim>\<open>urllib/request.py\<close>): the
  answer of the server, after the redirects the library follows, is returned when its
  status is in 200..299; for every other status \<^verbatim>\<open>HTTPError\<close> is raised, whose text is
  \<^verbatim>\<open>HTTP Error <code>: <reason>\<close>. The status of a returned answer is an integer.
\<close>

record http_answer =
  ans_status :: int
  ans_reason :: string
  ans_header_lines :: "(string \<times> string) list"
  ans_body :: bytes

type_synonym server = "event list \<Rightarrow> string \<Rightarrow> header_dict \<Rightarrow> pyval \<Rightarrow> exn + http_answer"

definition urllib_http ::
  "server \<Rightarrow> event list \<Rightarrow> string \<Rightarrow> header_dict \<Rightarrow> pyval \<Rightarrow> exn + urllib_response" where
  "urllib_http upstream hist url hdrs timeout =
     (case upstream hist url hdrs timeout of
        Inl e \<Rightarrow> Inl e
      | Inr a \<Rightarrow>
          if 200 \<le> ans_status a \<and> ans_status a < 300
          then Inr \<lparr>resp_status = StatusInt (ans_status a),
                    resp_header_items = ans_header_lines a,
                    resp_body = ans_body a\<rparr>
          else Inl (OtherException ''HTTPError''
                      (''HTTP Error '' @ str_int (ans_status a) @ '': '' @ ans_reason a)))"

definition str_exn :: "env \<Rightarrow> exn \<Rightarrow> string" where
  "str_exn env e = (case e of OtherException t s \<Rightarrow> s | UpstreamException m d \<Rightarrow> str_upstream env e)"

section \<open>The module\<close>

definition DOWNLOAD_API :: string where
  "DOWNLOAD_API = ''https://assets.grok.com''"

definition CONTENT_TYPES :: "(string \<times> string) list" where
  "CONTENT_TYPES =
     [(''.jpg'', ''image/jpeg''),
      (''.jpeg'', ''image/jpeg''),
      (''.png'', ''image/png''),
      (''.webp'', ''image/webp''),
      (''.mp4'', ''video/mp4''),
      (''.webm'', ''video/webm'')]"

subsection \<open>\<^verbatim>\<open>_urllib_get\<close>\<close>

text \<open>\<^verbatim>\<open>int(getattr(resp, "status", 200) or 200)\<close>\<close>

definition status_or_200 :: "status_attr \<Rightarrow> int" where
  "status_or_200 a =
     (case a of
        StatusMissing \<Rightarrow> 200
      | StatusNone \<Rightarrow> 200
      | StatusInt n \<Rightarrow> if n \<noteq> 0 then n else 200)"

text \<open>\<^verbatim>\<open>dict(items)\<close>: a key keeps the place of its first pair and the value of its last.\<close>

definition dict_of :: "('k \<times> 'v) list \<Rightarrow> ('k \<times> 'v) list" where
  "dict_of items = foldl (\<lambda>d (k, v). AList.update k v d) [] items"

text \<open>The loop \<^verbatim>\<open>for k, v in d.items(): raw_headers[str(k).lower()] = str(v)\<close>.\<close>

definition lower_keys :: "header_dict \<Rightarrow> header_dict" where
  "lower_keys d = foldl (\<lambda>raw_headers (k, v). AList.update (lower k) v raw_headers) [] d"

definition do_get :: "urllib_response \<Rightarrow> int \<times> header_dict \<times> bytes" where
  "do_get resp =
     (let status = status_or_200 (resp_status resp);
          body = resp_body resp;
          raw_headers = lower_keys (dict_of (resp_header_items resp))
      in (status, raw_headers, body))"

definition urllib_get ::
  "env \<Rightarrow> string \<Rightarrow> header_dict \<Rightarrow> pyval \<Rightarrow> event list \<Rightarrow> (exn + SimpleResponse) \<times> event list" where
  "urllib_get env url hdrs timeout hist =
     (let hist1 = hist @ [UrlOpen url hdrs timeout] in
      case urlopen env hist url hdrs timeout of
        Inl e \<Rightarrow> (Inl e, hist1)
      | Inr resp \<Rightarrow>
          (case do_get resp of
             (status, raw_headers, body) \<Rightarrow>
               (Inr \<lparr>status_code = status, headers = raw_headers, content = body\<rparr>, hist1)))"

subsection \<open>\<^verbatim>\<open>request\<close>: the local variables its closures read\<close>

record locals =
  l_session :: session
  l_url :: string
  l_headers :: header_dict
  l_timeout :: pyval
  l_proxies :: "(string \<times> string) list option"
  l_browser :: pyval

subsection \<open>\<^verbatim>\<open>_single_get\<close>\<close>

definition download_failed :: "int \<Rightarrow> string" where
  "download_failed status = ''AssetsDownloadReverse: Download failed, '' @ str_int status"

definition single_get_kwargs :: "locals \<Rightarrow> bool \<Rightarrow> bool \<Rightarrow> get_kwargs" where
  "single_get_kwargs L use_impersonate use_proxy =
     \<lparr>kw_headers = l_headers L,
      kw_timeout = l_timeout L,
      kw_allow_redirects = True,
      kw_stream = True,
      kw_proxies = (if use_proxy \<and> l_proxies L \<noteq> None then l_proxies L else None),
      kw_impersonate = (if use_impersonate \<and> truthy (l_browser L) then Some (l_browser L) else None)\<rparr>"

definition single_get ::
  "locals \<Rightarrow> bool \<Rightarrow> bool \<Rightarrow> event list \<Rightarrow> (exn + response) \<times> event list" where
  "single_get L use_impersonate use_proxy hist =
     (let kwargs = single_get_kwargs L use_impersonate use_proxy;
          hist1 = hist @ [SessionGet (l_url L) kwargs]
      in case l_session L hist (l_url L) kwargs of
           Inl e \<Rightarrow> (Inl e, hist1)
         | Inr response \<Rightarrow>
             if curl_status_code response \<noteq> 200
             then (Inl (UpstreamException (download_failed (curl_status_code response))
                          [(''status'', PInt (curl_status_code response))]),
                   hist1 @ [LogError (download_failed (curl_status_code response)) ''UpstreamException''])
             else (Inr (Curl response), hist1))"

subsection \<open>\<^verbatim>\<open>_do_request\<close>\<close>

definition primary_failed :: "env \<Rightarrow> exn \<Rightarrow> event" where
  "primary_failed env first_err =
     LogWarning (''AssetsDownloadReverse primary request failed, fallback direct: error=''
                   @ str_exn env first_err)"

definition direct_failed :: "env \<Rightarrow> exn \<Rightarrow> event" where
  "direct_failed env second_err =
     LogWarning (''AssetsDownloadReverse direct curl request failed, fallback urllib: error=''
                   @ str_exn env second_err)"

definition do_request :: "env \<Rightarrow> locals \<Rightarrow> event list \<Rightarrow> (exn + response) \<times> event list" where
  "do_request env L hist =
     (case single_get L True True hist of
        (Inr r, hist1) \<Rightarrow> (Inr r, hist1)
      | (Inl first_err, hist1) \<Rightarrow>
          (case single_get L False False (hist1 @ [primary_failed env first_err]) of
             (Inr r, hist2) \<Rightarrow> (Inr r, hist2)
           | (Inl second_err, hist2) \<Rightarrow>
               (case urllib_get env (l_url L) (l_headers L) (l_timeout L)
                       (hist2 @ [direct_failed env second_err]) of
                  (Inl e, hist3) \<Rightarrow> (Inl e, hist3)
                | (Inr fallback_resp, hist3) \<Rightarrow>
                    if status_code fallback_resp \<noteq> 200
                    then (Inl (UpstreamException (download_failed (status_code fallback_resp))
                                 [(''status'', PInt (status_code fallback_resp))]),
                          hist3 @ [LogError (download_failed (status_code fallback_resp))
                                     ''UpstreamException''])
                    else (Inr (Simple fallback_resp), hist3))))"

subsection \<open>The status of a failure\<close>

text \<open>
  Lines 174 to 178 of \<^verbatim>\<open>request\<close>: \<^verbatim>\<open>e.details["status"]\<close> when the details are not empty
  and have the key, \<^verbatim>\<open>getattr(e, "status_code", None)\<close> otherwise.
\<close>

definition failure_status :: "env \<Rightarrow> exn \<Rightarrow> pyval" where
  "failure_status env e =
     (case e of
        UpstreamException m d \<Rightarrow>
          (if d \<noteq> [] \<and> map_of d ''status'' \<noteq> None
           then (case map_of d ''status'' of Some v \<Rightarrow> v | None \<Rightarrow> PNone)
           else status_code_attr env e)
      | OtherException t s \<Rightarrow> PNone)"

subsection \<open>\<^verbatim>\<open>retry_on_status\<close>\<close>

text \<open>
  Modelled from the spec: \<^verbatim>\<open>retry_on_status\<close> is imported from
  \<^verbatim>\<open>app.services.reverse.utils.retry\<close>, which is not part of the source at hand. The
  spec (4.2): the cascade is one retryable unit; on a terminal upstream failure whose
  status is in the configured retryable set, and while the attempt budget is not
  exhausted, wait a backoff interval and restart the whole cascade; otherwise propagate
  the failure unchanged. The first argument counts the attempts left after this one.
\<close>

fun retry_loop ::
  "env \<Rightarrow> nat \<Rightarrow> (event list \<Rightarrow> (exn + response) \<times> event list) \<Rightarrow> event list
     \<Rightarrow> (exn + response) \<times> event list" where
  "retry_loop env 0 func hist = func hist"
| "retry_loop env (Suc left) func hist =
     (case func hist of
        (Inr r, hist1) \<Rightarrow> (Inr r, hist1)
      | (Inl e, hist1) \<Rightarrow>
          if is_upstream e \<and> failure_status env e \<in> set (retry_status_codes env)
          then retry_loop env left func (hist1 @ [Backoff])
          else (Inl e, hist1))"

definition retry_on_status ::
  "env \<Rightarrow> (event list \<Rightarrow> (exn + response) \<times> event list) \<Rightarrow> event list
     \<Rightarrow> (exn + response) \<times> event list" where
  "retry_on_status env func hist = retry_loop env (max_attempts env - 1) func hist"

subsection \<open>\<^verbatim>\<open>request\<close>: the body of its \<^verbatim>\<open>try\<close>\<close>

definition normalize_path :: "string \<Rightarrow> string" where
  "normalize_path file_path = (if \<not> startswith file_path ''/'' then ''/'' @ file_path else file_path)"

text \<open>
  \<^verbatim>\<open>(get_config(key) or "").strip()\<close>: a truthy value that is not a string has no
  \<^verbatim>\<open>strip\<close>.
\<close>

definition no_strip_attribute :: "string \<Rightarrow> string" where
  "no_strip_attribute type_name =
     [CHR 0x27] @ type_name @ [CHR 0x27] @ '' object has no attribute ''
       @ [CHR 0x27] @ ''strip'' @ [CHR 0x27]"

definition config_stripped :: "env \<Rightarrow> string \<Rightarrow> exn + string" where
  "config_stripped env key =
     (case get_config env key of
        Inl e \<Rightarrow> Inl e
      | Inr v \<Rightarrow>
          if truthy v
          then (case v of
                  PStr s \<Rightarrow> Inr (strip s)
                | PInt n \<Rightarrow> Inl (OtherException ''AttributeError'' (no_strip_attribute ''int''))
                | PNone \<Rightarrow> Inr (strip []))
          else Inr (strip []))"

text \<open>Lines 86 to 89: the proxies.\<close>

definition get_proxies :: "env \<Rightarrow> exn + (string \<times> string) list option" where
  "get_proxies env =
     (case config_stripped env ''proxy.base_proxy_url'' of
        Inl e \<Rightarrow> Inl e
      | Inr base_proxy \<Rightarrow>
          (case config_stripped env ''proxy.asset_proxy_url'' of
             Inl e \<Rightarrow> Inl e
           | Inr asset_proxy \<Rightarrow>
               (let proxy_url = (if asset_proxy \<noteq> [] then asset_proxy else base_proxy)
                in Inr (if proxy_url \<noteq> []
                        then Some [(''http'', proxy_url), (''https'', proxy_url)]
                        else None))))"

text \<open>Line 92: the content type guessed from the extension.\<close>

definition content_type_of_suffix :: "string \<Rightarrow> string option" where
  "content_type_of_suffix suffix = map_of CONTENT_TYPES (lower suffix)"

definition guess_content_type :: "env \<Rightarrow> string \<Rightarrow> exn + string option" where
  "guess_content_type env file_path =
     (case urlparse_path env file_path of
        Inl e \<Rightarrow> Inl e
      | Inr p \<Rightarrow> Inr (content_type_of_suffix (path_suffix env p)))"

text \<open>Lines 102 to 107: the headers of a browser's download navigation.\<close>

definition navigation_headers :: "header_dict \<Rightarrow> header_dict" where
  "navigation_headers hdrs =
     AList.update ''Upgrade-Insecure-Requests'' ''1''
       (AList.update ''Sec-Fetch-User'' ''?1''
         (AList.update ''Sec-Fetch-Mode'' ''navigate''
           (AList.update ''Priority'' ''u=0, i''
             (AList.update ''Pragma'' ''no-cache''
               (AList.update ''Cache-Control'' ''no-cache'' hdrs)))))"

definition request_body ::
  "env \<Rightarrow> session \<Rightarrow> string \<Rightarrow> string \<Rightarrow> event list \<Rightarrow> (exn + response) \<times> event list" where
  "request_body env session token file_path0 hist =
     (let file_path = normalize_path file_path0;
          url = DOWNLOAD_API @ file_path
      in case get_proxies env of
           Inl e \<Rightarrow> (Inl e, hist)
         | Inr proxies \<Rightarrow>
       (case guess_content_type env file_path of
           Inl e \<Rightarrow> (Inl e, hist)
         | Inr content_type \<Rightarrow>
       (case build_headers env token content_type ''https://assets.grok.com'' ''https://grok.com/'' of
           Inl e \<Rightarrow> (Inl e, hist)
         | Inr built \<Rightarrow>
       (case get_config env ''asset.download_timeout'' of
           Inl e \<Rightarrow> (Inl e, hist)
         | Inr timeout \<Rightarrow>
       (case get_config env ''proxy.browser'' of
           Inl e \<Rightarrow> (Inl e, hist)
         | Inr browser \<Rightarrow>
             retry_on_status env
               (do_request env
                  \<lparr>l_session = session, l_url = url, l_headers = navigation_headers built,
                   l_timeout = timeout, l_proxies = proxies, l_browser = browser\<rparr>)
               hist)))))"

subsection \<open>\<^verbatim>\<open>request\<close>\<close>

definition request ::
  "env \<Rightarrow> session \<Rightarrow> string \<Rightarrow> string \<Rightarrow> event list \<Rightarrow> (exn + response) \<times> event list" where
  "request env session token file_path hist =
     (case request_body env session token file_path hist of
        (Inr r, hist1) \<Rightarrow> (Inr r, hist1)
      | (Inl e, hist1) \<Rightarrow>
          (case e of
             UpstreamException m d \<Rightarrow>
               (let status = failure_status env e
                in if status = PInt 401
                   then (case record_fail env hist1 token status ''assets_download_auth_failed'' of
                           None \<Rightarrow>
                             (Inl e, hist1 @ [RecordFail token status ''assets_download_auth_failed''])
                         | Some raised \<Rightarrow>
                             (Inl e, hist1 @ [RecordFail token status ''assets_download_auth_failed'']))
                   else (Inl e, hist1))
           | OtherException type_name text \<Rightarrow>
               (Inl (UpstreamException (''AssetsDownloadReverse: Download failed, '' @ text)
                       [(''status'', PInt 502), (''error'', PStr text)]),
                hist1 @ [LogError (''AssetsDownloadReverse: Download failed, '' @ text) type_name])))"

section \<open>Observations on the events\<close>

fun is_transport :: "event \<Rightarrow> bool" where
  "is_transport (SessionGet url kwargs) = True"
| "is_transport (UrlOpen url hdrs timeout) = True"
| "is_transport ev = False"

definition transport_calls :: "event list \<Rightarrow> event list" where
  "transport_calls evs = filter is_transport evs"

fun is_record_fail :: "event \<Rightarrow> bool" where
  "is_record_fail (RecordFail token status reason) = True"
| "is_record_fail ev = False"

definition record_fail_calls :: "event list \<Rightarrow> event list" where
  "record_fail_calls evs = filter is_record_fail evs"



section \<open>Notions of the specification\<close>

text \<open>A tier fails when its request raises or answers with a status other than 200.\<close>

definition tier_failed :: "exn + curl_response \<Rightarrow> bool" where
  "tier_failed answer = (case answer of Inl e \<Rightarrow> True | Inr c \<Rightarrow> curl_status_code c \<noteq> 200)"

text \<open>A setting that is absent (\<^verbatim>\<open>None\<close>) or a string.\<close>

fun setting :: "string option \<Rightarrow> pyval" where
  "setting None = PNone"
| "setting (Some s) = PStr s"

text \<open>The text of such a setting after stripping white space; empty when absent.\<close>

fun stripped :: "string option \<Rightarrow> string" where
  "stripped None = []"
| "stripped (Some s) = strip s"

text \<open>The precedence of the proxy settings: asset over base over none.\<close>

definition chosen_proxy :: "string option \<Rightarrow> string option \<Rightarrow> string option" where
  "chosen_proxy asset base =
     (if stripped asset \<noteq> [] then Some (stripped asset)
      else if stripped base \<noteq> [] then Some (stripped base)
      else None)"

text \<open>The mapping \<^verbatim>\<open>{"http": url, "https": url}\<close>.\<close>

definition proxies_for :: "string \<Rightarrow> (string \<times> string) list" where
  "proxies_for url = [(''http'', url), (''https'', url)]"

text \<open>
  ``Last value wins'' over the header lines of the response: a lowercased key has the
  value of the last line whose name lowercases to it.
\<close>

definition last_value_wins :: "(string \<times> string) list \<Rightarrow> string \<Rightarrow> string option" where
  "last_value_wins items key = map_of (rev (map (\<lambda>(k, v). (lower k, v)) items)) key"

text \<open>Header names that agree up to letter case are spelled the same.\<close>

definition same_spelling :: "(string \<times> string) list \<Rightarrow> bool" where
  "same_spelling items =
     list_all (\<lambda>(k, v). list_all (\<lambda>(k', v'). lower k = lower k' \<longrightarrow> k = k') items) items"

section \<open>Sample inputs\<close>

definition sample_body :: SimpleResponse where
  "sample_body = \<lparr>status_code = 200, headers = [], content = [1, 2, 3, 4, 5]\<rparr>"

text \<open>
  Stand-ins for the two library functions, for the sample runs. \<open>sample_suffix\<close> is
  \<^verbatim>\<open>Path(p).suffix\<close> for a path that does not end in \<^verbatim>\<open>/\<close>: in the text after the last
  \<^verbatim>\<open>/\<close>, the part from the last dot on, when that dot is neither the first nor the last
  character. The samples take \<^verbatim>\<open>urlparse(p).path\<close> to be \<open>p\<close>, as it is for a path
  that starts with one \<^verbatim>\<open>/\<close> and has none of \<^verbatim>\<open>? # ;\<close>.
\<close>

definition sample_suffix :: "string \<Rightarrow> string" where
  "sample_suffix p =
     (let name = rev (takeWhile (\<lambda>c. c \<noteq> CHR ''/'') (rev p));
          ext = rev (takeWhile (\<lambda>c. c \<noteq> CHR ''.'') (rev name))
      in if ext \<noteq> [] \<and> Suc (length ext) < length name then CHR ''.'' # ext else [])"

definition sample_build_headers ::
  "string \<Rightarrow> string option \<Rightarrow> string \<Rightarrow> string \<Rightarrow> exn + header_dict" where
  "sample_build_headers token content_type origin referer =
     Inr [(''Cookie'', ''sso='' @ token), (''Origin'', origin), (''Referer'', referer)]"

definition sample_config :: "pyval \<Rightarrow> pyval \<Rightarrow> pyval \<Rightarrow> pyval \<Rightarrow> string \<Rightarrow> exn + pyval" where
  "sample_config base asset timeout browser key =
     Inr (if key = ''proxy.base_proxy_url'' then base
          else if key = ''proxy.asset_proxy_url'' then asset
          else if key = ''asset.download_timeout'' then timeout
          else if key = ''proxy.browser'' then browser
          else PNone)"

definition broken_config :: "string \<Rightarrow> exn + pyval" where
  "broken_config key = Inl (OtherException ''RuntimeError'' ''config not loaded'')"

definition sample_env :: "(string \<Rightarrow> exn + pyval) \<Rightarrow> (exn + urllib_response) \<Rightarrow> env" where
  "sample_env config fallback =
     \<lparr>get_config = config,
      build_headers = sample_build_headers,
      urlopen = (\<lambda>hist url hdrs timeout. fallback),
      record_fail = (\<lambda>hist token status reason.
                       Some (OtherException ''RuntimeError'' ''token store unavailable'')),
      urlparse_path = Inr,
      path_suffix = sample_suffix,
      str_upstream = (\<lambda>e. case e of UpstreamException m d \<Rightarrow> m | OtherException t s \<Rightarrow> s),
      status_code_attr = (\<lambda>e. PInt 502),
      max_attempts = 2,
      retry_status_codes = [PInt 429, PInt 502, PInt 503, PInt 504]\<rparr>"

definition sample_reply :: "int \<Rightarrow> curl_response" where
  "sample_reply status =
     \<lparr>curl_status_code = status, curl_headers = [(''content-type'', ''image/png'')],
      curl_body = [137, 80, 78, 71]\<rparr>"

text \<open>A session whose impersonating request fails in the handshake and whose plain request is refused.\<close>

definition failing_session :: session where
  "failing_session hist url kwargs =
     (if kw_impersonate kwargs \<noteq> None
      then Inl (OtherException ''CurlError'' ''TLS connect error'')
      else Inr (sample_reply 403))"

definition answering_session :: "int \<Rightarrow> session" where
  "answering_session status hist url kwargs = Inr (sample_reply status)"

definition sample_items :: "(string \<times> string) list" where
  "sample_items = [(''X-Trace'', ''1''), (''x-trace'', ''2''), (''X-Trace'', ''3'')]"

definition fallback_reply :: "status_attr \<Rightarrow> (string \<times> string) list \<Rightarrow> urllib_response" where
  "fallback_reply status items =
     \<lparr>resp_status = status, resp_header_items = items, resp_body = [1, 2, 3]\<rparr>"

definition sample_locals :: locals where
  "sample_locals =
     \<lparr>l_session = failing_session,
      l_url = ''https://assets.grok.com/a.png'',
      l_headers = [(''Cookie'', ''sso=t'')],
      l_timeout = PInt 30,
      l_proxies = Some [(''http'', ''http://proxy:8080''), (''https'', ''http://proxy:8080'')],
      l_browser = PStr ''chrome136''\<rparr>"


text \<open>An environment whose \<^verbatim>\<open>urlopen\<close> is the library's, on a server with one answer.\<close>

definition library_env :: "(string \<Rightarrow> exn + pyval) \<Rightarrow> (exn + http_answer) \<Rightarrow> env" where
  "library_env config answer =
     \<lparr>get_config = config,
      build_headers = sample_build_headers,
      urlopen = urllib_http (\<lambda>hist url hdrs timeout. answer),
      record_fail = (\<lambda>hist token status reason.
                       Some (OtherException ''RuntimeError'' ''token store unavailable'')),
      urlparse_path = Inr,
      path_suffix = sample_suffix,
      str_upstream = (\<lambda>e. case e of UpstreamException m d \<Rightarrow> m | OtherException t s \<Rightarrow> s),
      status_code_attr = (\<lambda>e. PInt 502),
      max_attempts = 2,
      retry_status_codes = [PInt 429, PInt 502, PInt 503, PInt 504]\<rparr>"

definition answer_with :: "int \<Rightarrow> string \<Rightarrow> http_answer" where
  "answer_with status reason =
     \<lparr>ans_status = status, ans_reason = reason,
      ans_header_lines = [(''Content-Type'', ''image/png'')], ans_body = [1, 2, 3]\<rparr>"

text \<open>The server answers the fallback request with 401.\<close>

definition unauthorized_env :: env where
  "unauthorized_env = library_env (sample_config PNone PNone (PInt 30) PNone)
                        (Inr (answer_with 401 ''Unauthorized''))"





definition refused_locals :: locals where
  "refused_locals = sample_locals\<lparr>l_session := answering_session 401\<rparr>"

text \<open>Environments that differ in their settings.\<close>

definition absent_env :: env where
  "absent_env = library_env (sample_config PNone PNone PNone PNone) (Inr (answer_with 200 ''OK''))"

definition proxied_env :: env where
  "proxied_env = library_env (sample_config (PStr ''http://base:1'') (PStr ''  http://asset:2 '')
                                (PInt 30) (PStr ''chrome136''))
                   (Inr (answer_with 200 ''OK''))"

definition base_only_env :: env where
  "base_only_env = library_env (sample_config (PStr ''http://base:1'') (PStr ''   '')
                                  (PInt 30) (PStr ''chrome136''))
                     (Inr (answer_with 200 ''OK''))"

definition broken_env :: env where
  "broken_env = sample_env broken_config (Inr (fallback_reply (StatusInt 200) []))"

definition consistent_items :: "(string \<times> string) list" where
  "consistent_items = [(''Content-Type'', ''image/png''), (''X-Id'', ''1''), (''X-Id'', ''2'')]"

definition status_none_env :: env where
  "status_none_env = sample_env (sample_config PNone PNone (PInt 30) (PStr ''chrome136''))
                       (Inr (fallback_reply StatusNone consistent_items))"

section \<open>Chunked reading of the fallback response\<close>

lemma ceil_div_step: "0 < c \<Longrightarrow> 0 < m \<Longrightarrow> ceil_div m c = Suc (ceil_div (m - c) c)"
proof (cases "c \<le> m")
  case True
  assume c: "0 < c"
  from True have "m + c - 1 = (m - c + c - 1) + c" using c by arith
  then have "(m + c - 1) div c = (m - c + c - 1) div c + 1" using c
    by (metis div_add_self2 less_numeral_extra(3))
  then show ?thesis by (simp add: ceil_div_def)
next
  case False
  assume c: "0 < c" and m: "0 < m"
  from False m c have "(m + c - 1) div c = 1"
    by (intro div_nat_eqI) auto
  moreover from False c have "(m - c + c - 1) div c = 0" by simp
  ultimately show ?thesis by (simp add: ceil_div_def)
qed

lemma ceil_div_bounds:
  assumes "0 < c"
  shows "n \<le> ceil_div n c * c" and "0 < n \<Longrightarrow> (ceil_div n c - 1) * c < n"
proof -
  let ?k = "(n + c - 1) div c"
  have a: "?k * c \<le> n + c - 1" by simp
  have b: "n + c - 1 < ?k * c + c" using assms
    by (metis add.commute div_mult_mod_eq mod_less_divisor add_less_cancel_left mult.commute)
  from b show "n \<le> ceil_div n c * c" unfolding ceil_div_def by arith
  assume n: "0 < n"
  then have "1 \<le> ?k" using assms by (simp add: Suc_le_eq div_greater_zero_iff)
  then have "(?k - 1) * c + c = ?k * c" by (simp add: algebra_simps)
  with a n show "(ceil_div n c - 1) * c < n" unfolding ceil_div_def by arith
qed

lemma ceil_div_ceiling: "0 < c \<Longrightarrow> int (ceil_div n c) = \<lceil>real n / real c\<rceil>"
proof (cases "n = 0")
  case True
  assume "0 < c"
  then show ?thesis using True by (simp add: ceil_div_def)
next
  case False
  assume c: "0 < c"
  from False have n: "0 < n" by simp
  have k: "1 \<le> ceil_div n c" using ceil_div_bounds(1) [OF c, of n] n by (cases "ceil_div n c") auto
  have u: "real n \<le> real (ceil_div n c) * real c"
    using ceil_div_bounds(1) [OF c, of n] by (metis of_nat_mult of_nat_le_iff)
  have l: "real (ceil_div n c - 1) * real c < real n"
    using ceil_div_bounds(2) [OF c n] by (metis of_nat_mult of_nat_less_iff)
  have "\<lceil>real n / real c\<rceil> = int (ceil_div n c)"
  proof (rule ceiling_unique)
    show "real_of_int (int (ceil_div n c)) - 1 < real n / real c"
      using l c k by (simp add: pos_less_divide_eq of_nat_diff)
    show "real n / real c \<le> real_of_int (int (ceil_div n c))"
      using u c by (simp add: pos_divide_le_eq)
  qed
  then show ?thesis by simp
qed

lemma range_from_concat:
  "0 < c \<Longrightarrow> concat (map (\<lambda>j. py_slice xs j (j + c)) (range_from i (length xs) c)) = drop i xs"
proof (induction i "length xs" c rule: range_from.induct)
  case (1 i c)
  show ?case
  proof (cases "length xs \<le> i")
    case True
    then show ?thesis by (simp add: range_from.simps)
  next
    case False
    have "drop i xs = take c (drop i xs) @ drop (i + c) xs"
      by (metis append_take_drop_id drop_drop add.commute)
    with False 1 show ?thesis
      by (simp add: range_from.simps [of i] py_slice_def)
  qed
qed

lemma range_from_length:
  "0 < c \<Longrightarrow> length (range_from i n c) = ceil_div (n - i) c"
proof (induction i n c rule: range_from.induct)
  case (1 i n c)
  show ?case
  proof (cases "n \<le> i")
    case True
    with 1(2) show ?thesis by (simp add: range_from.simps ceil_div_def)
  next
    case False
    then have "ceil_div (n - i) c = Suc (ceil_div (n - i - c) c)"
      using ceil_div_step [OF 1(2), of "n - i"] by simp
    with False 1 show ?thesis
      by (simp add: range_from.simps [of i])
  qed
qed

lemma range_from_nth:
  "0 < c \<Longrightarrow> k < length (range_from i n c) \<Longrightarrow> range_from i n c ! k = i + k * c"
proof (induction i n c arbitrary: k rule: range_from.induct)
  case (1 i n c)
  then show ?case
    by (cases k) (auto simp: range_from.simps [of i] split: if_splits)
qed

lemma chunk_length:
  assumes c: "0 < c" and k: "k < ceil_div n c" and n: "n = length xs"
  shows "length (py_slice xs (k * c) (k * c + c)) = (if Suc k < ceil_div n c then c else n - k * c)"
    and "k * c < n"
proof -
  from k c have npos: "0 < n" by (cases "n = 0") (auto simp: ceil_div_def)
  have top: "(ceil_div n c - 1) * c < n" by (rule ceil_div_bounds(2) [OF c npos])
  from k have "k \<le> ceil_div n c - 1" by arith
  then have "k * c \<le> (ceil_div n c - 1) * c" by (rule mult_le_mono1)
  with top show lt: "k * c < n" by linarith
  show "length (py_slice xs (k * c) (k * c + c)) = (if Suc k < ceil_div n c then c else n - k * c)"
  proof (cases "Suc k < ceil_div n c")
    case True
    then have "Suc k \<le> ceil_div n c - 1" by arith
    then have "Suc k * c \<le> (ceil_div n c - 1) * c" by (rule mult_le_mono1)
    with top have "Suc k * c < n" by linarith
    then have "k * c + c < n" by (simp add: add.commute)
    with True n show ?thesis by (simp add: py_slice_def)
  next
    case False
    with k have "ceil_div n c = Suc k" by simp
    with ceil_div_bounds(1) [OF c, of n] have "n \<le> k * c + c" by (simp add: add.commute)
    with False n show ?thesis by (simp add: py_slice_def)
  qed
qed

text \<open>
  Claim C4. For a body of \<open>N\<close> bytes and a chunk size \<open>C > 0\<close>, \<^verbatim>\<open>aiter_content\<close>
  yields \<open>\<lceil>N / C\<rceil>\<close> chunks; every chunk but the last has exactly \<open>C\<close> bytes, the
  last one is not empty and has at most \<open>C\<close>; their concatenation in yielded order is
  the body; an empty body yields no chunk. The default chunk size is 64 KiB.
\<close>

theorem aiter_content_chunks:
  assumes "0 < C"
  shows "(\<exists>chunks. aiter_content self C = Inr chunks
           \<and> length chunks = ceil_div (length (content self)) (nat C)
           \<and> int (length chunks) = \<lceil>real (length (content self)) / real_of_int C\<rceil>
           \<and> concat chunks = content self
           \<and> (\<forall>k. Suc k < length chunks \<longrightarrow> length (chunks ! k) = nat C)
           \<and> (\<forall>ch \<in> set chunks. 0 < length ch \<and> length ch \<le> nat C)
           \<and> (content self = [] \<longrightarrow> chunks = []))
         \<and> aiter_content_default self = aiter_content self 65536"
proof -
  define c where "c = nat C"
  define data where "data = content self"
  define chunks where "chunks = map (\<lambda>i. py_slice data i (i + c)) (range_from 0 (length data) c)"
  from assms have c: "0 < c" and Cc: "C = int c" by (simp_all add: c_def)
  have run: "aiter_content self C = Inr chunks"
    using assms by (cases "content self = []") (simp_all add: aiter_content_def Let_def chunks_def c_def data_def)
  have len: "length chunks = ceil_div (length data) c"
    using c by (simp add: chunks_def range_from_length)
  have ceil: "int (length chunks) = \<lceil>real (length data) / real_of_int C\<rceil>"
    using ceil_div_ceiling [OF c, of "length data"] by (simp add: len Cc)
  have cat: "concat chunks = data"
    using range_from_concat [OF c, of data 0] by (simp add: chunks_def)
  have nth: "chunks ! k = py_slice data (k * c) (k * c + c)" if "k < length chunks" for k
    using that c by (simp add: chunks_def range_from_nth)
  have full: "length (chunks ! k) = c" if "Suc k < length chunks" for k
  proof -
    from that have k: "k < ceil_div (length data) c" by (simp add: len)
    from that have "chunks ! k = py_slice data (k * c) (k * c + c)" by (simp add: nth)
    with chunk_length(1) [OF c k refl] that show ?thesis by (simp add: len)
  qed
  have each: "0 < length ch \<and> length ch \<le> c" if "ch \<in> set chunks" for ch
  proof -
    from that obtain k where kl: "k < length chunks" and ch: "ch = chunks ! k"
      by (auto simp: in_set_conv_nth)
    from kl have k: "k < ceil_div (length data) c" by (simp add: len)
    from chunk_length(2) [OF c k refl] have "k * c < length data" .
    with c show ?thesis
      by (simp add: ch nth [OF kl] py_slice_def)
  qed
  have none: "chunks = []" if "data = []"
    using that by (simp add: chunks_def range_from.simps)
  from run len ceil cat full each none
  have "\<exists>chunks. aiter_content self C = Inr chunks
           \<and> length chunks = ceil_div (length (content self)) (nat C)
           \<and> int (length chunks) = \<lceil>real (length (content self)) / real_of_int C\<rceil>
           \<and> concat chunks = content self
           \<and> (\<forall>k. Suc k < length chunks \<longrightarrow> length (chunks ! k) = nat C)
           \<and> (\<forall>ch \<in> set chunks. 0 < length ch \<and> length ch \<le> nat C)
           \<and> (content self = [] \<longrightarrow> chunks = [])"
    unfolding c_def data_def by blast
  moreover have "aiter_content_default self = aiter_content self 65536"
    by (simp add: aiter_content_default_def)
  ultimately show ?thesis by (rule conjI)
qed


theorem aiter_content_chunks_witness:
  "(0::int) < 2 \<and> aiter_content sample_body 2 = Inr [[1, 2], [3, 4], [5]]
     \<and> ceil_div (length (content sample_body)) (nat 2) = 3"
proof -
  have h: "(0::int) < 2" by simp
  have e: "aiter_content sample_body 2 = Inr [[1, 2], [3, 4], [5]]"
    by (simp add: aiter_content_def sample_body_def py_slice_def range_from.simps)
  from aiter_content_chunks [OF h, of sample_body] e
  have "ceil_div (length (content sample_body)) (nat 2) = 3" by auto
  with h e show ?thesis by simp
qed

section \<open>The cascade\<close>

lemma single_get_answer:
  "single_get L ui up h =
     (case l_session L h (l_url L) (single_get_kwargs L ui up) of
        Inl e \<Rightarrow> (Inl e, h @ [SessionGet (l_url L) (single_get_kwargs L ui up)])
      | Inr c \<Rightarrow>
          if curl_status_code c = 200
          then (Inr (Curl c), h @ [SessionGet (l_url L) (single_get_kwargs L ui up)])
          else (Inl (UpstreamException (download_failed (curl_status_code c))
                       [(''status'', PInt (curl_status_code c))]),
                h @ [SessionGet (l_url L) (single_get_kwargs L ui up),
                     LogError (download_failed (curl_status_code c)) ''UpstreamException'']))"
  by (simp add: single_get_def Let_def split: sum.splits)

lemma single_get_events:
  "\<exists>evs. snd (single_get L ui up h) = h @ SessionGet (l_url L) (single_get_kwargs L ui up) # evs
          \<and> transport_calls evs = []"
  by (simp add: single_get_answer transport_calls_def split: sum.splits)

lemma urllib_get_events:
  "snd (urllib_get env url hdrs timeout h) = h @ [UrlOpen url hdrs timeout]"
  by (simp add: urllib_get_def Let_def split: sum.splits prod.splits)

lemma urllib_get_answer:
  "fst (urllib_get env url hdrs timeout h) =
     (case urlopen env h url hdrs timeout of
        Inl e \<Rightarrow> Inl e
      | Inr resp \<Rightarrow> Inr \<lparr>status_code = status_or_200 (resp_status resp),
                         headers = lower_keys (dict_of (resp_header_items resp)),
                         content = resp_body resp\<rparr>)"
  by (simp add: urllib_get_def do_get_def Let_def split: sum.splits prod.splits)

lemma do_request_tier1_ok:
  "single_get L True True h = (Inr r, h1) \<Longrightarrow> do_request env L h = (Inr r, h1)"
  by (simp add: do_request_def)

lemma do_request_tier2_ok:
  "single_get L True True h = (Inl e1, h1) \<Longrightarrow>
   single_get L False False (h1 @ [primary_failed env e1]) = (Inr r, h2) \<Longrightarrow>
   do_request env L h = (Inr r, h2)"
  by (simp add: do_request_def)

lemma do_request_tier3:
  "single_get L True True h = (Inl e1, h1) \<Longrightarrow>
   single_get L False False (h1 @ [primary_failed env e1]) = (Inl e2, h2) \<Longrightarrow>
   do_request env L h =
     (case urllib_get env (l_url L) (l_headers L) (l_timeout L) (h2 @ [direct_failed env e2]) of
        (Inl e, h3) \<Rightarrow> (Inl e, h3)
      | (Inr fr, h3) \<Rightarrow>
          if status_code fr = 200 then (Inr (Simple fr), h3)
          else (Inl (UpstreamException (download_failed (status_code fr))
                       [(''status'', PInt (status_code fr))]),
                h3 @ [LogError (download_failed (status_code fr)) ''UpstreamException'']))"
  by (simp add: do_request_def split: prod.splits sum.splits)


lemma single_get_fails_iff:
  "(\<exists>e h1. single_get L ui up h = (Inl e, h1))
     = tier_failed (l_session L h (l_url L) (single_get_kwargs L ui up))"
  by (simp add: single_get_answer tier_failed_def split: sum.splits)

lemma do_request_tier3_events:
  assumes "single_get L True True h = (Inl e1, h1)"
    and "single_get L False False (h1 @ [primary_failed env e1]) = (Inl e2, h2)"
  shows "\<exists>evs. snd (do_request env L h)
             = h2 @ direct_failed env e2 # UrlOpen (l_url L) (l_headers L) (l_timeout L) # evs
           \<and> transport_calls evs = [] \<and> record_fail_calls evs = []"
proof (cases "urllib_get env (l_url L) (l_headers L) (l_timeout L) (h2 @ [direct_failed env e2])")
  case (Pair r3 h3)
  with urllib_get_events [of env "l_url L" "l_headers L" "l_timeout L" "h2 @ [direct_failed env e2]"]
  have h3: "h3 = h2 @ [direct_failed env e2, UrlOpen (l_url L) (l_headers L) (l_timeout L)]"
    by simp
  show ?thesis
    using Pair h3
    by (cases r3) (simp_all add: do_request_tier3 [OF assms] transport_calls_def record_fail_calls_def)
qed

lemma do_request_first:
  "\<exists>evs. snd (do_request env L h) = h @ SessionGet (l_url L) (single_get_kwargs L True True) # evs"
proof (cases "single_get L True True h")
  case P1: (Pair r1 h1)
  from single_get_events [of L True True h] P1
  obtain evs1 where h1: "h1 = h @ SessionGet (l_url L) (single_get_kwargs L True True) # evs1"
    by auto
  show ?thesis
  proof (cases r1)
    case (Inr r)
    with P1 h1 show ?thesis by (simp add: do_request_tier1_ok)
  next
    case e1: (Inl e1)
    show ?thesis
    proof (cases "single_get L False False (h1 @ [primary_failed env e1])")
      case P2: (Pair r2 h2)
      from single_get_events [of L False False "h1 @ [primary_failed env e1]"] P2
      obtain evs2 where h2: "h2 = h1 @ primary_failed env e1 # SessionGet (l_url L) (single_get_kwargs L False False) # evs2"
        by auto
      show ?thesis
      proof (cases r2)
        case (Inr r)
        with P1 e1 P2 h1 h2 show ?thesis
          by (simp add: do_request_tier2_ok)
      next
        case e2: (Inl e2)
        from do_request_tier3_events [of L h e1 h1 env e2 h2] P1 e1 P2 e2
        show ?thesis by (auto simp: h1 h2)
      qed
    qed
  qed
qed

lemma do_request_second:
  assumes "single_get L True True h = (Inl e1, h1)"
  shows "\<exists>evs. snd (do_request env L h)
           = h1 @ primary_failed env e1 # SessionGet (l_url L) (single_get_kwargs L False False) # evs"
proof (cases "single_get L False False (h1 @ [primary_failed env e1])")
  case P2: (Pair r2 h2)
  from single_get_events [of L False False "h1 @ [primary_failed env e1]"] P2
  obtain evs2 where h2: "h2 = h1 @ primary_failed env e1 # SessionGet (l_url L) (single_get_kwargs L False False) # evs2"
    by auto
  show ?thesis
  proof (cases r2)
    case (Inr r)
    with assms P2 h2 show ?thesis by (simp add: do_request_tier2_ok)
  next
    case e2: (Inl e2)
    from do_request_tier3_events [of L h e1 h1 env e2 h2] assms P2 e2
    show ?thesis by (auto simp: h2)
  qed
qed

lemma do_request_terminal:
  assumes "single_get L True True h = (Inl e1, h1)"
    and "single_get L False False (h1 @ [primary_failed env e1]) = (Inl e2, h2)"
    and "urllib_get env (l_url L) (l_headers L) (l_timeout L) (h2 @ [direct_failed env e2]) = (Inr fr, h3)"
    and "status_code fr \<noteq> 200"
  shows "fst (do_request env L h)
           = Inl (UpstreamException (download_failed (status_code fr)) [(''status'', PInt (status_code fr))])"
  using assms(3,4) by (simp add: do_request_tier3 [OF assms(1,2)])

text \<open>
  The order of the tiers, and what lines 158 to 166 do with a response that the
  \<^verbatim>\<open>urllib\<close> client returns.
\<close>

lemma cascade_tiers:
  "(\<exists>evs. snd (do_request env L h) = h @ SessionGet (l_url L) (single_get_kwargs L True True) # evs)
   \<and> kw_proxies (single_get_kwargs L True True) = l_proxies L
   \<and> kw_impersonate (single_get_kwargs L True True)
       = (if truthy (l_browser L) then Some (l_browser L) else None)
   \<and> kw_proxies (single_get_kwargs L False False) = None
   \<and> kw_impersonate (single_get_kwargs L False False) = None
   \<and> (\<forall>ui up h0. (\<exists>e h1. single_get L ui up h0 = (Inl e, h1))
          = tier_failed (l_session L h0 (l_url L) (single_get_kwargs L ui up)))
   \<and> (\<forall>e1 h1. single_get L True True h = (Inl e1, h1) \<longrightarrow>
         (\<exists>evs. snd (do_request env L h)
            = h1 @ primary_failed env e1 # SessionGet (l_url L) (single_get_kwargs L False False) # evs)
       \<and> (\<forall>e2 h2. single_get L False False (h1 @ [primary_failed env e1]) = (Inl e2, h2) \<longrightarrow>
            (\<exists>evs. snd (do_request env L h)
               = h2 @ direct_failed env e2 # UrlOpen (l_url L) (l_headers L) (l_timeout L) # evs
               \<and> transport_calls evs = [])
          \<and> (\<forall>fr h3. urllib_get env (l_url L) (l_headers L) (l_timeout L) (h2 @ [direct_failed env e2])
                         = (Inr fr, h3) \<and> status_code fr \<noteq> 200 \<longrightarrow>
                fst (do_request env L h)
                  = Inl (UpstreamException (download_failed (status_code fr))
                           [(''status'', PInt (status_code fr))]))))"
proof -
  have a: "\<exists>evs. snd (do_request env L h) = h @ SessionGet (l_url L) (single_get_kwargs L True True) # evs"
    by (rule do_request_first)
  have b: "kw_proxies (single_get_kwargs L True True) = l_proxies L"
    by (cases "l_proxies L") (simp_all add: single_get_kwargs_def)
  have c: "kw_impersonate (single_get_kwargs L True True)
             = (if truthy (l_browser L) then Some (l_browser L) else None)"
    by (simp add: single_get_kwargs_def)
  have d: "kw_proxies (single_get_kwargs L False False) = None"
    "kw_impersonate (single_get_kwargs L False False) = None"
    by (simp_all add: single_get_kwargs_def)
  have e: "\<forall>ui up h0. (\<exists>e h1. single_get L ui up h0 = (Inl e, h1))
          = tier_failed (l_session L h0 (l_url L) (single_get_kwargs L ui up))"
    by (simp only: single_get_fails_iff) simp
  have f: "\<forall>e1 h1. single_get L True True h = (Inl e1, h1) \<longrightarrow>
         (\<exists>evs. snd (do_request env L h)
            = h1 @ primary_failed env e1 # SessionGet (l_url L) (single_get_kwargs L False False) # evs)
       \<and> (\<forall>e2 h2. single_get L False False (h1 @ [primary_failed env e1]) = (Inl e2, h2) \<longrightarrow>
            (\<exists>evs. snd (do_request env L h)
               = h2 @ direct_failed env e2 # UrlOpen (l_url L) (l_headers L) (l_timeout L) # evs
               \<and> transport_calls evs = [])
          \<and> (\<forall>fr h3. urllib_get env (l_url L) (l_headers L) (l_timeout L) (h2 @ [direct_failed env e2])
                         = (Inr fr, h3) \<and> status_code fr \<noteq> 200 \<longrightarrow>
                fst (do_request env L h)
                  = Inl (UpstreamException (download_failed (status_code fr))
                           [(''status'', PInt (status_code fr))])))"
  proof (intro allI impI conjI)
    fix e1 h1
    assume t1: "single_get L True True h = (Inl e1, h1)"
    show "\<exists>evs. snd (do_request env L h)
            = h1 @ primary_failed env e1 # SessionGet (l_url L) (single_get_kwargs L False False) # evs"
      by (rule do_request_second [OF t1])
    fix e2 h2
    assume t2: "single_get L False False (h1 @ [primary_failed env e1]) = (Inl e2, h2)"
    from do_request_tier3_events [OF t1 t2]
    show "\<exists>evs. snd (do_request env L h)
               = h2 @ direct_failed env e2 # UrlOpen (l_url L) (l_headers L) (l_timeout L) # evs
               \<and> transport_calls evs = []"
      by blast
    fix fr h3
    assume "urllib_get env (l_url L) (l_headers L) (l_timeout L) (h2 @ [direct_failed env e2])
              = (Inr fr, h3) \<and> status_code fr \<noteq> 200"
    then show "fst (do_request env L h)
                  = Inl (UpstreamException (download_failed (status_code fr))
                           [(''status'', PInt (status_code fr))])"
      using do_request_terminal [OF t1 t2] by blast
  qed
  from a b c d e f show ?thesis by blast
qed



lemma lower_X_Trace: "lower ''X-Trace'' = ''x-trace''" "lower ''x-trace'' = ''x-trace''"
  by code_simp+

lemma str_int_samples: "str_int 401 = ''401''" "str_int 403 = ''403''" "str_int 204 = ''204''"
  by (simp_all add: str_int_def str_nat.simps)














section \<open>The entry point\<close>

lemma do_request_all_events:
  assumes "P (SessionGet (l_url L) (single_get_kwargs L True True))"
    and "P (SessionGet (l_url L) (single_get_kwargs L False False))"
    and "P (UrlOpen (l_url L) (l_headers L) (l_timeout L))"
    and "\<And>m t. P (LogError m t)"
    and "\<And>m. P (LogWarning m)"
  shows "\<exists>evs. snd (do_request env L h) = h @ evs \<and> list_all P evs"
proof (cases "single_get L True True h")
  case P1: (Pair r1 h1)
  have s1: "\<exists>evs. h1 = h @ evs \<and> list_all P evs"
    using P1 assms(1,4) by (auto simp: single_get_answer split: sum.splits if_splits)
  then obtain evs1 where h1: "h1 = h @ evs1" and p1: "list_all P evs1" by blast
  show ?thesis
  proof (cases r1)
    case (Inr r)
    with P1 s1 show ?thesis by (simp add: do_request_tier1_ok)
  next
    case e1: (Inl e1)
    show ?thesis
    proof (cases "single_get L False False (h1 @ [primary_failed env e1])")
      case P2: (Pair r2 h2)
      have "\<exists>evs. h2 = (h1 @ [primary_failed env e1]) @ evs \<and> list_all P evs"
        using P2 assms(2,4) by (auto simp: single_get_answer split: sum.splits if_splits)
      then obtain evs2 where h2: "h2 = h @ evs1 @ primary_failed env e1 # evs2" and p2: "list_all P evs2"
        using h1 by auto
      have pw: "P (primary_failed env e1)" "\<And>e. P (direct_failed env e)"
        using assms(5) by (simp_all add: primary_failed_def direct_failed_def)
      show ?thesis
      proof (cases r2)
        case (Inr r)
        with P1 e1 P2 have "do_request env L h = (Inr r, h2)" by (simp add: do_request_tier2_ok)
        with h2 p1 p2 pw show ?thesis by simp
      next
        case e2: (Inl e2)
        from P1 e1 have t1: "single_get L True True h = (Inl e1, h1)" by simp
        from P2 e2 have t2: "single_get L False False (h1 @ [primary_failed env e1]) = (Inl e2, h2)" by simp
        have "\<exists>evs. snd (do_request env L h)
                 = h2 @ direct_failed env e2 # UrlOpen (l_url L) (l_headers L) (l_timeout L) # evs
               \<and> list_all P evs"
          using assms(4)
          by (cases "urllib_get env (l_url L) (l_headers L) (l_timeout L) (h2 @ [direct_failed env e2])")
             (auto simp: do_request_tier3 [OF t1 t2] urllib_get_def Let_def split: sum.splits prod.splits)
        with h2 p1 p2 pw assms(3) show ?thesis by auto
      qed
    qed
  qed
qed

lemma retry_loop_all_events:
  assumes "\<And>h. \<exists>evs. snd (f h) = h @ evs \<and> list_all P evs" and "P Backoff"
  shows "\<exists>evs. snd (retry_loop env n f h) = h @ evs \<and> list_all P evs"
proof (induction n arbitrary: h)
  case 0
  show ?case using assms(1) by simp
next
  case (Suc n)
  obtain r h1 where f: "f h = (r, h1)" by (cases "f h")
  with assms(1) [of h] obtain evs1 where h1: "h1 = h @ evs1" and p1: "list_all P evs1" by auto
  show ?case
  proof (cases "\<exists>e. r = Inl e \<and> is_upstream e \<and> failure_status env e \<in> set (retry_status_codes env)")
    case True
    then obtain e where r: "r = Inl e" and c: "is_upstream e \<and> failure_status env e \<in> set (retry_status_codes env)"
      by blast
    from Suc.IH [of "h1 @ [Backoff]"] obtain evs2
      where "snd (retry_loop env n f (h1 @ [Backoff])) = (h1 @ [Backoff]) @ evs2" and "list_all P evs2"
      by blast
    with f r c h1 p1 assms(2) show ?thesis by simp
  next
    case False
    with f have "retry_loop env (Suc n) f h = (r, h1)"
      by (cases r) auto
    with h1 p1 show ?thesis by simp
  qed
qed

lemma request_body_run:
  assumes "get_proxies env = Inr proxies"
    and "guess_content_type env (normalize_path p) = Inr ct"
    and "build_headers env token ct ''https://assets.grok.com'' ''https://grok.com/'' = Inr built"
    and "get_config env ''asset.download_timeout'' = Inr timeout"
    and "get_config env ''proxy.browser'' = Inr browser"
  shows "request_body env session token p h =
           retry_on_status env
             (do_request env
                \<lparr>l_session = session, l_url = DOWNLOAD_API @ normalize_path p,
                 l_headers = navigation_headers built, l_timeout = timeout,
                 l_proxies = proxies, l_browser = browser\<rparr>) h"
  using assms by (simp add: request_body_def Let_def)

lemma request_body_cases:
  "(\<exists>e. request_body env session token p h = (Inl e, h))
   \<or> (\<exists>proxies ct built timeout browser.
        get_proxies env = Inr proxies
      \<and> guess_content_type env (normalize_path p) = Inr ct
      \<and> build_headers env token ct ''https://assets.grok.com'' ''https://grok.com/'' = Inr built
      \<and> get_config env ''asset.download_timeout'' = Inr timeout
      \<and> get_config env ''proxy.browser'' = Inr browser)"
  by (simp add: request_body_def Let_def split: sum.splits)

lemma request_body_no_record_fail:
  "\<exists>evs. snd (request_body env session token p h) = h @ evs \<and> record_fail_calls evs = []"
proof -
  let ?P = "\<lambda>ev. \<not> is_record_fail ev"
  have "\<exists>evs. snd (request_body env session token p h) = h @ evs \<and> list_all ?P evs"
    using request_body_cases [of env session token p h]
  proof (elim disjE exE conjE)
    fix e assume "request_body env session token p h = (Inl e, h)"
    then show ?thesis by simp
  next
    fix proxies ct built timeout browser
    assume a: "get_proxies env = Inr proxies"
      "guess_content_type env (normalize_path p) = Inr ct"
      "build_headers env token ct ''https://assets.grok.com'' ''https://grok.com/'' = Inr built"
      "get_config env ''asset.download_timeout'' = Inr timeout"
      "get_config env ''proxy.browser'' = Inr browser"
    show ?thesis
      unfolding request_body_run [OF a] retry_on_status_def
      by (rule retry_loop_all_events) (rule do_request_all_events, simp_all)
  qed
  then show ?thesis
    by (auto simp: record_fail_calls_def list_all_iff filter_empty_conv)
qed


lemma failure_status_502: "failure_status env (UpstreamException m [(''status'', PInt 502), (''error'', v)]) = PInt 502"
  by (simp add: failure_status_def)

lemma retry_loop_record_fail:
  "(\<And>h. f' h = f h) \<Longrightarrow> retry_loop (env\<lparr>record_fail := rf\<rparr>) n f' h = retry_loop env n f h"
  by (induction n arbitrary: h) (simp_all add: failure_status_def split: sum.splits prod.splits exn.splits)

lemma str_exn_record_fail: "str_exn (env\<lparr>record_fail := rf\<rparr>) e = str_exn env e"
  by (cases e) (simp_all add: str_exn_def)

lemma warnings_record_fail:
  "primary_failed (env\<lparr>record_fail := rf\<rparr>) e = primary_failed env e"
  "direct_failed (env\<lparr>record_fail := rf\<rparr>) e = direct_failed env e"
  by (simp_all add: primary_failed_def direct_failed_def str_exn_record_fail)

lemma config_stripped_record_fail:
  "config_stripped (env\<lparr>record_fail := rf\<rparr>) key = config_stripped env key"
  by (simp add: config_stripped_def)

lemma urllib_get_record_fail:
  "urllib_get (env\<lparr>record_fail := rf\<rparr>) url hs t h = urllib_get env url hs t h"
  by (simp add: urllib_get_def)

lemma do_request_record_fail:
  "do_request (env\<lparr>record_fail := rf\<rparr>) L h = do_request env L h"
  by (simp add: do_request_def warnings_record_fail urllib_get_record_fail
           cong: sum.case_cong prod.case_cong)

lemma get_proxies_record_fail:
  "get_proxies (env\<lparr>record_fail := rf\<rparr>) = get_proxies env"
  by (simp add: get_proxies_def config_stripped_record_fail cong: sum.case_cong)

lemma guess_content_type_record_fail:
  "guess_content_type (env\<lparr>record_fail := rf\<rparr>) p = guess_content_type env p"
  by (simp add: guess_content_type_def cong: sum.case_cong)

lemma request_body_record_fail:
  "request_body (env\<lparr>record_fail := rf\<rparr>) session token p h = request_body env session token p h"
  by (simp add: request_body_def get_proxies_record_fail guess_content_type_record_fail
        retry_on_status_def retry_loop_record_fail do_request_record_fail
      cong: sum.case_cong)

text \<open>
  The handler of \<^verbatim>\<open>request\<close>, lines 171 to 185: a failure that reaches it as an
  \<^verbatim>\<open>UpstreamException\<close> is raised again unchanged, after one call of \<^verbatim>\<open>record_fail\<close>
  when its status is 401, whatever that call does. Every failure \<^verbatim>\<open>request\<close> ends in
  is an \<^verbatim>\<open>UpstreamException\<close>.
\<close>

lemma handler_reports_401:
  assumes "request env session token file_path h = (Inl e, h')"
  shows "\<exists>evs. h' = h @ evs
           \<and> is_upstream e
           \<and> record_fail_calls evs
               = (if failure_status env e = PInt 401
                  then [RecordFail token (PInt 401) ''assets_download_auth_failed'']
                  else [])
           \<and> (\<forall>e0 h0. request_body env session token file_path h = (Inl e0, h0) \<and> is_upstream e0
                  \<longrightarrow> e = e0)
           \<and> (\<forall>rf. request (env\<lparr>record_fail := rf\<rparr>) session token file_path h = (Inl e, h'))"
proof -
  obtain r h1 where body: "request_body env session token file_path h = (r, h1)"
    by (cases "request_body env session token file_path h")
  with request_body_no_record_fail [of env session token file_path h]
  obtain evs1 where h1: "h1 = h @ evs1" and none: "record_fail_calls evs1 = []" by auto
  from assms body obtain e0 where r: "r = Inl e0"
    by (cases r) (auto simp: request_def)
  have indep: "request (env\<lparr>record_fail := rf\<rparr>) session token file_path h = (Inl e, h')" for rf
    using assms body r
    by (auto simp: request_def request_body_record_fail failure_status_def Let_def
             split: exn.splits option.splits if_splits)
  show ?thesis
  proof (cases e0)
    case (UpstreamException m d)
    with assms body r have e: "e = e0"
      and h': "h' = h1 @ (if failure_status env e0 = PInt 401
                          then [RecordFail token (PInt 401) ''assets_download_auth_failed''] else [])"
      by (auto simp: request_def Let_def split: option.splits if_splits)
    from e UpstreamException have "is_upstream e" by simp
    moreover have "h' = h @ (evs1 @ (if failure_status env e0 = PInt 401
                          then [RecordFail token (PInt 401) ''assets_download_auth_failed''] else []))"
      using h' h1 by simp
    moreover have "record_fail_calls (evs1 @ (if failure_status env e0 = PInt 401
                          then [RecordFail token (PInt 401) ''assets_download_auth_failed''] else []))
                   = (if failure_status env e = PInt 401
                      then [RecordFail token (PInt 401) ''assets_download_auth_failed''] else [])"
      using none e by (simp add: record_fail_calls_def)
    moreover have "\<forall>e0' h0. request_body env session token file_path h = (Inl e0', h0) \<and> is_upstream e0'
                  \<longrightarrow> e = e0'"
      using body r e by simp
    ultimately show ?thesis using indep by blast
  next
    case (OtherException t s)
    with assms body r have e: "e = UpstreamException (''AssetsDownloadReverse: Download failed, '' @ s)
                                   [(''status'', PInt 502), (''error'', PStr s)]"
      and h': "h' = h1 @ [LogError (''AssetsDownloadReverse: Download failed, '' @ s) t]"
      by (auto simp: request_def)
    from e have "is_upstream e" by simp
    moreover have "h' = h @ (evs1 @ [LogError (''AssetsDownloadReverse: Download failed, '' @ s) t])"
      using h' h1 by simp
    moreover have "record_fail_calls (evs1 @ [LogError (''AssetsDownloadReverse: Download failed, '' @ s) t])
                   = (if failure_status env e = PInt 401
                      then [RecordFail token (PInt 401) ''assets_download_auth_failed''] else [])"
      using none by (simp add: record_fail_calls_def e failure_status_502)
    moreover have "\<forall>e0' h0. request_body env session token file_path h = (Inl e0', h0) \<and> is_upstream e0'
                  \<longrightarrow> e = e0'"
      using body r OtherException by auto
    ultimately show ?thesis using indep by blast
  qed
qed

lemmas sample_run_defs =
  request_def request_body_def get_proxies_def config_stripped_def guess_content_type_def
  unauthorized_env_def library_env_def sample_config_def sample_build_headers_def
  retry_on_status_def do_request_def single_get_answer answering_session_def sample_reply_def
  urllib_get_def urllib_http_def answer_with_def str_int_samples strip_def Let_def
  primary_failed_def direct_failed_def

text \<open>
  Claim C1 on a run in which every tier is answered with 401. The tiers are called in
  the order of the claim: impersonating and proxied, then plain, then \<^verbatim>\<open>urllib\<close>. The
  cascade does not end with an \<^verbatim>\<open>UpstreamException\<close> whose details are
  \<^verbatim>\<open>{"status": 401}\<close>: \<^verbatim>\<open>urlopen\<close> raises \<^verbatim>\<open>HTTPError\<close>, lines 158 to 166 are not
  reached, and \<^verbatim>\<open>request\<close> ends with details of status 502.
\<close>

theorem refused_fallback_has_no_status:
  "fst (do_request unauthorized_env refused_locals [])
     = Inl (OtherException ''HTTPError'' ''HTTP Error 401: Unauthorized'')
   \<and> transport_calls (snd (do_request unauthorized_env refused_locals []))
     = [SessionGet (l_url refused_locals) (single_get_kwargs refused_locals True True),
        SessionGet (l_url refused_locals) (single_get_kwargs refused_locals False False),
        UrlOpen (l_url refused_locals) (l_headers refused_locals) (l_timeout refused_locals)]
   \<and> fst (request unauthorized_env (answering_session 401) ''tok'' ''a.png'' [])
     = Inl (UpstreamException ''AssetsDownloadReverse: Download failed, HTTP Error 401: Unauthorized''
              [(''status'', PInt 502), (''error'', PStr ''HTTP Error 401: Unauthorized'')])"
proof (intro conjI)
  show "fst (do_request unauthorized_env refused_locals [])
     = Inl (OtherException ''HTTPError'' ''HTTP Error 401: Unauthorized'')"
    by (simp add: sample_run_defs refused_locals_def sample_locals_def)
  show "transport_calls (snd (do_request unauthorized_env refused_locals []))
     = [SessionGet (l_url refused_locals) (single_get_kwargs refused_locals True True),
        SessionGet (l_url refused_locals) (single_get_kwargs refused_locals False False),
        UrlOpen (l_url refused_locals) (l_headers refused_locals) (l_timeout refused_locals)]"
    by (simp add: sample_run_defs refused_locals_def sample_locals_def transport_calls_def)
  show "fst (request unauthorized_env (answering_session 401) ''tok'' ''a.png'' [])
     = Inl (UpstreamException ''AssetsDownloadReverse: Download failed, HTTP Error 401: Unauthorized''
              [(''status'', PInt 502), (''error'', PStr ''HTTP Error 401: Unauthorized'')])"
    by (simp add: sample_run_defs)
qed

text \<open>
  Claim C3 on the same run: the two requests of the session and the fallback request are
  each answered with 401, the failure \<^verbatim>\<open>request\<close> ends in has status 502, and
  \<^verbatim>\<open>record_fail\<close> is not called.
\<close>

theorem refused_download_is_not_reported:
  "curl_status_code (sample_reply 401) = 401
   \<and> ans_status (answer_with 401 ''Unauthorized'') = 401
   \<and> length (transport_calls (snd (request unauthorized_env (answering_session 401) ''tok'' ''a.png'' []))) = 3
   \<and> (case fst (request unauthorized_env (answering_session 401) ''tok'' ''a.png'' []) of
         Inl e \<Rightarrow> failure_status unauthorized_env e
       | Inr r \<Rightarrow> PNone) = PInt 502
   \<and> record_fail_calls (snd (request unauthorized_env (answering_session 401) ''tok'' ''a.png'' [])) = []"
proof (intro conjI)
  show "curl_status_code (sample_reply 401) = 401" by (simp add: sample_reply_def)
  show "ans_status (answer_with 401 ''Unauthorized'') = 401" by (simp add: answer_with_def)
  show "length (transport_calls (snd (request unauthorized_env (answering_session 401) ''tok'' ''a.png'' []))) = 3"
    by (simp add: sample_run_defs transport_calls_def)
  show "(case fst (request unauthorized_env (answering_session 401) ''tok'' ''a.png'' []) of
         Inl e \<Rightarrow> failure_status unauthorized_env e
       | Inr r \<Rightarrow> PNone) = PInt 502"
    by (simp add: sample_run_defs failure_status_def)
  show "record_fail_calls (snd (request unauthorized_env (answering_session 401) ''tok'' ''a.png'' [])) = []"
    by (simp add: sample_run_defs record_fail_calls_def)
qed

text \<open>
  Claim C5. An exception that is not an \<^verbatim>\<open>UpstreamException\<close>, such as an error of a
  configuration lookup, is logged as an error and replaced by a new
  \<^verbatim>\<open>UpstreamException\<close> whose message and details carry its text and whose details
  have status 502; \<^verbatim>\<open>request\<close> never raises anything but an \<^verbatim>\<open>UpstreamException\<close>.
\<close>

theorem unclassified_is_wrapped:
  "(\<forall>t s h1. request_body env session token file_path h = (Inl (OtherException t s), h1) \<longrightarrow>
       request env session token file_path h
         = (Inl (UpstreamException (''AssetsDownloadReverse: Download failed, '' @ s)
                   [(''status'', PInt 502), (''error'', PStr s)]),
            h1 @ [LogError (''AssetsDownloadReverse: Download failed, '' @ s) t]))
   \<and> (\<forall>t s. get_config env ''proxy.base_proxy_url'' = Inl (OtherException t s) \<longrightarrow>
         request env session token file_path h
           = (Inl (UpstreamException (''AssetsDownloadReverse: Download failed, '' @ s)
                     [(''status'', PInt 502), (''error'', PStr s)]),
              h @ [LogError (''AssetsDownloadReverse: Download failed, '' @ s) t]))
   \<and> (\<forall>t s. fst (request env session token file_path h) \<noteq> Inl (OtherException t s))"
proof (intro conjI allI impI)
  fix t s h1
  assume "request_body env session token file_path h = (Inl (OtherException t s), h1)"
  then show "request env session token file_path h
         = (Inl (UpstreamException (''AssetsDownloadReverse: Download failed, '' @ s)
                   [(''status'', PInt 502), (''error'', PStr s)]),
            h1 @ [LogError (''AssetsDownloadReverse: Download failed, '' @ s) t])"
    by (simp add: request_def)
next
  fix t s
  assume "get_config env ''proxy.base_proxy_url'' = Inl (OtherException t s)"
  then have "request_body env session token file_path h = (Inl (OtherException t s), h)"
    by (simp add: request_body_def get_proxies_def config_stripped_def Let_def)
  then show "request env session token file_path h
           = (Inl (UpstreamException (''AssetsDownloadReverse: Download failed, '' @ s)
                     [(''status'', PInt 502), (''error'', PStr s)]),
              h @ [LogError (''AssetsDownloadReverse: Download failed, '' @ s) t])"
    by (simp add: request_def)
next
  fix t s
  show "fst (request env session token file_path h) \<noteq> Inl (OtherException t s)"
    by (cases "request_body env session token file_path h")
       (auto simp: request_def Let_def split: sum.splits exn.splits option.splits if_splits)
qed

lemma normalize_path_slash: "\<not> startswith p ''/'' \<Longrightarrow> normalize_path (CHR ''/'' # p) = normalize_path p"
  by (simp add: normalize_path_def startswith_def)

text \<open>
  Claim C8. A path without a leading \<^verbatim>\<open>/\<close> gets exactly one, a path with one is left
  as it is, and \<^verbatim>\<open>request\<close> on a path without a leading \<^verbatim>\<open>/\<close> is \<^verbatim>\<open>request\<close> on
  the same path with one added: same URL, same outcome, same events.
\<close>

theorem leading_separator:
  "(\<not> startswith p ''/'' \<longrightarrow>
       normalize_path p = ''/'' @ p
     \<and> DOWNLOAD_API @ normalize_path p = DOWNLOAD_API @ normalize_path (''/'' @ p)
     \<and> request env session token p h = request env session token (''/'' @ p) h)
   \<and> (startswith p ''/'' \<longrightarrow> normalize_path p = p)
   \<and> startswith (normalize_path p) ''/''
   \<and> normalize_path (normalize_path p) = normalize_path p"
proof -
  have "request_body env session token p h = request_body env session token (''/'' @ p) h"
    if "\<not> startswith p ''/''"
    using that by (simp add: request_body_def normalize_path_slash Let_def)
  then have "request env session token p h = request env session token (''/'' @ p) h"
    if "\<not> startswith p ''/''"
    using that by (simp add: request_def)
  moreover have "startswith (normalize_path p) ''/''"
    by (simp add: normalize_path_def startswith_def)
  moreover have "normalize_path (normalize_path p) = normalize_path p"
    by (simp add: normalize_path_def startswith_def)
  ultimately show ?thesis
    by (simp add: normalize_path_slash) (simp add: normalize_path_def)
qed


theorem unclassified_is_wrapped_witness:
  "get_config broken_env ''proxy.base_proxy_url'' = Inl (OtherException ''RuntimeError'' ''config not loaded'')
   \<and> request broken_env (answering_session 200) ''tok'' ''a.png'' []
     = (Inl (UpstreamException (''AssetsDownloadReverse: Download failed, '' @ ''config not loaded'')
               [(''status'', PInt 502), (''error'', PStr ''config not loaded'')]),
        [LogError (''AssetsDownloadReverse: Download failed, '' @ ''config not loaded'') ''RuntimeError''])"
proof -
  have c: "get_config broken_env ''proxy.base_proxy_url''
             = Inl (OtherException ''RuntimeError'' ''config not loaded'')"
    by (simp add: broken_env_def sample_env_def broken_config_def)
  note wrapped = unclassified_is_wrapped [of broken_env "answering_session 200" "''tok''" "''a.png''" "[]",
      THEN conjunct2, THEN conjunct1]
  have "request broken_env (answering_session 200) ''tok'' ''a.png'' []
     = (Inl (UpstreamException (''AssetsDownloadReverse: Download failed, '' @ ''config not loaded'')
               [(''status'', PInt 502), (''error'', PStr ''config not loaded'')]),
        [] @ [LogError (''AssetsDownloadReverse: Download failed, '' @ ''config not loaded'') ''RuntimeError''])"
    by (rule wrapped [rule_format, OF c])
  with c show ?thesis by simp
qed

theorem leading_separator_witness:
  "\<not> startswith ''a.png'' ''/''
   \<and> normalize_path ''a.png'' = ''/a.png''
   \<and> request unauthorized_env (answering_session 200) ''tok'' ''a.png'' []
       = request unauthorized_env (answering_session 200) ''tok'' ''/a.png'' []"
proof -
  have n: "\<not> startswith ''a.png'' ''/''" by (simp add: startswith_def)
  note inst = leading_separator [of "''a.png''" unauthorized_env "answering_session 200" "''tok''" "[]",
      THEN conjunct1, rule_format, OF n]
  from inst have "normalize_path ''a.png'' = ''/a.png''" by simp
  moreover from inst have "request unauthorized_env (answering_session 200) ''tok'' ''a.png'' []
       = request unauthorized_env (answering_session 200) ''tok'' ''/a.png'' []" by simp
  ultimately show ?thesis using n by simp
qed

section \<open>The response of the fallback client\<close>

lemma py_lower_char_idem: "py_lower_char (py_lower_char c) = py_lower_char c"
proof -
  define n where "n = (of_char c :: nat)"
  show ?thesis
  proof (cases "(65 \<le> n \<and> n \<le> 90) \<or> (192 \<le> n \<and> n \<le> 222 \<and> n \<noteq> 215)")
    case True
    then have r: "py_lower_char c = char_of (n + 32)"
      by (simp add: py_lower_char_def n_def [symmetric] Let_def)
    from True have "(n + 32) mod 256 = n + 32" by auto
    then have "(of_char (char_of (n + 32)) :: nat) = n + 32" by simp
    with True show ?thesis
      unfolding r by (auto simp add: py_lower_char_def Let_def)
  next
    case False
    then have "py_lower_char c = c"
      by (auto simp add: py_lower_char_def n_def [symmetric] Let_def)
    then show ?thesis by simp
  qed
qed

lemma lower_idem: "lower (lower s) = lower s"
  by (simp add: lower_def py_lower_char_idem)

lemma fold_update_map_of:
  "map_of (foldl (\<lambda>d (k, v). AList.update (f k) v d) d0 xs)
     = map_of d0 ++ map_of (rev (map (\<lambda>(k, v). (f k, v)) xs))"
proof (induction xs arbitrary: d0)
  case Nil
  show ?case by simp
next
  case (Cons x xs)
  obtain k v where x: "x = (k, v)" by (cases x)
  have "(map_of d0)(f k \<mapsto> v) = map_of d0 ++ [f k \<mapsto> v]" by simp
  then show ?case
    by (simp add: x Cons.IH update_conv' del: map_add_upd)
qed

lemma fold_update_distinct:
  "distinct (map fst d0) \<Longrightarrow> distinct (map fst (foldl (\<lambda>d (k, v). AList.update (f k) v d) d0 xs))"
proof (induction xs arbitrary: d0)
  case Nil
  then show ?case by simp
next
  case (Cons x xs)
  obtain k v where x: "x = (k, v)" by (cases x)
  from Cons.prems have "distinct (map fst (AList.update (f k) v d0))"
    by (rule distinct_update)
  from Cons.IH [OF this] show ?case by (simp add: x)
qed

lemma fold_update_keys:
  "fst ` set (foldl (\<lambda>d (k, v). AList.update (f k) v d) d0 xs) = fst ` set d0 \<union> f ` fst ` set xs"
proof (induction xs arbitrary: d0)
  case Nil
  show ?case by simp
next
  case (Cons x xs)
  obtain k v where x: "x = (k, v)" by (cases x)
  show ?case by (auto simp add: x Cons.IH dom_update)
qed

lemma dict_of_map_of: "map_of (dict_of items) = map_of (rev items)"
  using fold_update_map_of [of "\<lambda>k. k" "[]" items] by (simp add: dict_of_def)

lemma dict_of_distinct: "distinct (map fst (dict_of items))"
  using fold_update_distinct [of "[]" "\<lambda>k. k" items] by (simp add: dict_of_def)

lemma dict_of_keys: "fst ` set (dict_of items) = fst ` set items"
  using fold_update_keys [of "\<lambda>k. k" "[]" items] by (simp add: dict_of_def)

lemma lower_keys_map_of: "map_of (lower_keys d) key = last_value_wins d key"
  using fold_update_map_of [of lower "[]" d] by (simp add: lower_keys_def last_value_wins_def)

lemma lower_keys_distinct: "distinct (map fst (lower_keys d))"
  using fold_update_distinct [of "[]" lower d] by (simp add: lower_keys_def)

lemma lower_keys_keys: "fst ` set (lower_keys d) = lower ` fst ` set d"
  using fold_update_keys [of lower "[]" d] by (simp add: lower_keys_def)

lemma same_spelling_inj: "same_spelling items = inj_on lower (fst ` set items)"
  by (simp add: same_spelling_def list_all_iff inj_on_def case_prod_beta)

lemma map_of_lowered:
  assumes inj: "inj_on lower K" and k: "k \<in> K"
  shows "fst ` set ys \<subseteq> K \<Longrightarrow>
         map_of (map (\<lambda>(k, v). (lower k, v)) ys) (lower k) = map_of ys k"
proof (induction ys)
  case Nil
  show ?case by simp
next
  case (Cons p ys)
  obtain k' v' where p: "p = (k', v')" by (cases p)
  from Cons.prems p have "k' \<in> K" and sub: "fst ` set ys \<subseteq> K" by simp_all
  with inj k have "(lower k = lower k') = (k = k')" by (simp add: inj_on_eq_iff)
  with Cons.IH [OF sub] show ?case by (simp add: p)
qed

lemma map_of_lowered_none:
  "key \<notin> lower ` fst ` set ys \<Longrightarrow> map_of (map (\<lambda>(k, v). (lower k, v)) ys) key = None"
  by (induction ys) auto

lemma map_of_rev_distinct:
  assumes "distinct (map fst xs)"
  shows "map_of (rev xs) = map_of xs"
proof -
  have "map fst (rev xs) = rev (map fst xs)" by (rule rev_map [symmetric])
  with assms have "distinct (map fst (rev xs))" by (simp only: distinct_rev)
  moreover have "set (rev xs) = set xs" by simp
  ultimately show ?thesis using assms by (simp only: map_of_inject_set)
qed

lemma same_spelling_last_value:
  assumes "same_spelling items"
  shows "last_value_wins (dict_of items) key = last_value_wins items key"
proof (cases "key \<in> lower ` fst ` set items")
  case False
  have f1: "key \<notin> lower ` fst ` set (rev (dict_of items))"
    and f2: "key \<notin> lower ` fst ` set (rev items)"
    using False by (simp_all add: dict_of_keys)
  show ?thesis
    unfolding last_value_wins_def rev_map
    by (rule trans [OF map_of_lowered_none [OF f1] map_of_lowered_none [OF f2, symmetric]])
next
  case True
  then obtain k where k: "k \<in> fst ` set items" and key: "key = lower k" by blast
  from assms have inj: "inj_on lower (fst ` set items)" by (simp add: same_spelling_inj)
  have s1: "fst ` set (rev (dict_of items)) \<subseteq> fst ` set items" by (simp add: dict_of_keys)
  have s2: "fst ` set (rev items) \<subseteq> fst ` set items" by simp
  have "last_value_wins (dict_of items) key = map_of (rev (dict_of items)) k"
    unfolding last_value_wins_def rev_map key
    by (rule map_of_lowered [OF inj k s1])
  also have "\<dots> = map_of (dict_of items) k"
    by (simp only: map_of_rev_distinct [OF dict_of_distinct])
  also have "\<dots> = map_of (rev items) k" by (simp only: dict_of_map_of)
  also have "\<dots> = last_value_wins items key"
    unfolding last_value_wins_def rev_map key
    by (rule map_of_lowered [OF inj k s2, symmetric])
  finally show ?thesis .
qed


lemma lower_samples:
  "lower ''Content-Type'' = ''content-type''"
  "lower ''X-Id'' = ''x-id''"
  by code_simp+

text \<open>
  Claim C9, as the code has it. A response of the \<^verbatim>\<open>urllib\<close> client without a
  \<^verbatim>\<open>status\<close> attribute, or with the status \<^verbatim>\<open>None\<close> or 0, is adapted with status 200
  and the cascade returns it as a success. The keys of the adapted headers are lowercase
  and distinct. A name written several times in the same spelling keeps its last value,
  at the place of its first line (\<^verbatim>\<open>dict(resp.headers.items())\<close>); of the names that
  agree after lowercasing, the one that comes last in that order gives the value. When
  names that agree up to letter case are spelled the same, this is the value of the last
  such line of the response.
\<close>

theorem fallback_status_and_headers:
  "status_or_200 StatusMissing = 200 \<and> status_or_200 StatusNone = 200
   \<and> status_or_200 (StatusInt 0) = 200
   \<and> (\<forall>e1 h1 e2 h2 resp. single_get L True True h = (Inl e1, h1)
         \<and> single_get L False False (h1 @ [primary_failed env e1]) = (Inl e2, h2)
         \<and> urlopen env (h2 @ [direct_failed env e2]) (l_url L) (l_headers L) (l_timeout L) = Inr resp
         \<and> resp_status resp \<in> {StatusMissing, StatusNone, StatusInt 0} \<longrightarrow>
         fst (do_request env L h)
           = Inr (Simple \<lparr>status_code = 200,
                           headers = lower_keys (dict_of (resp_header_items resp)),
                           content = resp_body resp\<rparr>))
   \<and> distinct (map fst (lower_keys (dict_of items)))
   \<and> (\<forall>k \<in> fst ` set (lower_keys (dict_of items)). lower k = k)
   \<and> fst ` set (lower_keys (dict_of items)) = lower ` fst ` set items
   \<and> distinct (map fst (dict_of items))
   \<and> map_of (dict_of items) = map_of (rev items)
   \<and> map_of (lower_keys (dict_of items)) key = last_value_wins (dict_of items) key
   \<and> (same_spelling items \<longrightarrow>
         map_of (lower_keys (dict_of items)) key = last_value_wins items key)"
proof -
  have st: "status_or_200 StatusMissing = 200" "status_or_200 StatusNone = 200"
    "status_or_200 (StatusInt 0) = 200"
    by (simp_all add: status_or_200_def)
  have ok: "\<forall>e1 h1 e2 h2 resp. single_get L True True h = (Inl e1, h1)
         \<and> single_get L False False (h1 @ [primary_failed env e1]) = (Inl e2, h2)
         \<and> urlopen env (h2 @ [direct_failed env e2]) (l_url L) (l_headers L) (l_timeout L) = Inr resp
         \<and> resp_status resp \<in> {StatusMissing, StatusNone, StatusInt 0} \<longrightarrow>
         fst (do_request env L h)
           = Inr (Simple \<lparr>status_code = 200,
                           headers = lower_keys (dict_of (resp_header_items resp)),
                           content = resp_body resp\<rparr>)"
  proof (intro allI impI)
    fix e1 h1 e2 h2 resp
    assume a: "single_get L True True h = (Inl e1, h1)
         \<and> single_get L False False (h1 @ [primary_failed env e1]) = (Inl e2, h2)
         \<and> urlopen env (h2 @ [direct_failed env e2]) (l_url L) (l_headers L) (l_timeout L) = Inr resp
         \<and> resp_status resp \<in> {StatusMissing, StatusNone, StatusInt 0}"
    then have t1: "single_get L True True h = (Inl e1, h1)"
      and t2: "single_get L False False (h1 @ [primary_failed env e1]) = (Inl e2, h2)"
      and t3: "urlopen env (h2 @ [direct_failed env e2]) (l_url L) (l_headers L) (l_timeout L) = Inr resp"
      and t4: "status_or_200 (resp_status resp) = 200"
      using st by auto
    from t3 t4 show "fst (do_request env L h)
           = Inr (Simple \<lparr>status_code = 200,
                           headers = lower_keys (dict_of (resp_header_items resp)),
                           content = resp_body resp\<rparr>)"
      by (simp add: do_request_tier3 [OF t1 t2] urllib_get_def do_get_def Let_def)
  qed
  have low: "\<forall>k \<in> fst ` set (lower_keys (dict_of items)). lower k = k"
    unfolding lower_keys_keys by (simp add: lower_idem)
  have d1: "distinct (map fst (lower_keys (dict_of items)))" by (rule lower_keys_distinct)
  have ks: "fst ` set (lower_keys (dict_of items)) = lower ` fst ` set items"
    by (simp only: lower_keys_keys dict_of_keys)
  have d2: "distinct (map fst (dict_of items))" by (rule dict_of_distinct)
  have m1: "map_of (dict_of items) = map_of (rev items)" by (rule dict_of_map_of)
  have m2: "map_of (lower_keys (dict_of items)) key = last_value_wins (dict_of items) key"
    by (rule lower_keys_map_of)
  have m3: "same_spelling items \<longrightarrow>
         map_of (lower_keys (dict_of items)) key = last_value_wins items key"
    using same_spelling_last_value [of items key] by (simp add: lower_keys_map_of)
  from st ok d1 low ks d2 m1 m2 m3 show ?thesis by blast
qed

text \<open>
  The value is not always the one of the last line: for the lines \<^verbatim>\<open>X-Trace: 1\<close>,
  \<^verbatim>\<open>x-trace: 2\<close>, \<^verbatim>\<open>X-Trace: 3\<close> the adapted headers are \<^verbatim>\<open>{"x-trace": "2"}\<close>.
\<close>

theorem fallback_status_and_headers_counterexample:
  "do_get (fallback_reply StatusNone sample_items) = (200, [(''x-trace'', ''2'')], [1, 2, 3])
   \<and> last_value_wins sample_items ''x-trace'' = Some ''3''"
  by (simp add: do_get_def fallback_reply_def status_or_200_def sample_items_def dict_of_def
        lower_keys_def last_value_wins_def lower_X_Trace)


theorem fallback_status_and_headers_witness:
  "same_spelling consistent_items
   \<and> last_value_wins consistent_items ''x-id'' = Some ''2''
   \<and> map_of (lower_keys (dict_of consistent_items)) ''x-id'' = Some ''2''
   \<and> resp_status (fallback_reply StatusNone consistent_items) = StatusNone
   \<and> fst (do_request status_none_env sample_locals [])
       = Inr (Simple \<lparr>status_code = 200,
                       headers = lower_keys (dict_of consistent_items),
                       content = [1, 2, 3]\<rparr>)"
proof -
  let ?env = status_none_env
  let ?T1 = "SessionGet (l_url sample_locals) (single_get_kwargs sample_locals True True)"
  let ?e1 = "OtherException ''CurlError'' ''TLS connect error''"
  let ?e2 = "UpstreamException (download_failed 403) [(''status'', PInt 403)]"
  let ?h2 = "[?T1, primary_failed ?env ?e1,
              SessionGet (l_url sample_locals) (single_get_kwargs sample_locals False False),
              LogError (download_failed 403) ''UpstreamException'']"
  let ?resp = "fallback_reply StatusNone consistent_items"
  have t1: "single_get sample_locals True True [] = (Inl ?e1, [?T1])"
    by (simp add: single_get_answer sample_locals_def failing_session_def single_get_kwargs_def)
  have t2: "single_get sample_locals False False ([?T1] @ [primary_failed ?env ?e1])
              = (Inl ?e2, ?h2)"
    by (simp add: single_get_answer sample_locals_def failing_session_def single_get_kwargs_def
          sample_reply_def)
  have t3: "urlopen ?env (?h2 @ [direct_failed ?env ?e2]) (l_url sample_locals)
              (l_headers sample_locals) (l_timeout sample_locals) = Inr ?resp"
    by (simp add: status_none_env_def sample_env_def)
  have t4: "resp_status ?resp \<in> {StatusMissing, StatusNone, StatusInt 0}"
    by (simp add: fallback_reply_def)
  have sp: "same_spelling consistent_items"
    by (simp add: same_spelling_def consistent_items_def lower_samples)
  have lv: "last_value_wins consistent_items ''x-id'' = Some ''2''"
    by (simp add: last_value_wins_def consistent_items_def lower_samples)
  note inst = fallback_status_and_headers [of sample_locals "[]" ?env consistent_items "''x-id''"]
  note ok = inst [THEN conjunct2, THEN conjunct2, THEN conjunct2, THEN conjunct1]
  note m3 = inst [THEN conjunct2, THEN conjunct2, THEN conjunct2, THEN conjunct2, THEN conjunct2,
      THEN conjunct2, THEN conjunct2, THEN conjunct2, THEN conjunct2, THEN conjunct2]
  have run: "fst (do_request ?env sample_locals [])
       = Inr (Simple \<lparr>status_code = 200,
                       headers = lower_keys (dict_of (resp_header_items ?resp)),
                       content = resp_body ?resp\<rparr>)"
    by (rule ok [rule_format, OF conjI [OF t1 conjI [OF t2 conjI [OF t3 t4]]]])
  have "map_of (lower_keys (dict_of consistent_items)) ''x-id'' = last_value_wins consistent_items ''x-id''"
    by (rule m3 [rule_format, OF sp])
  with lv have mv: "map_of (lower_keys (dict_of consistent_items)) ''x-id'' = Some ''2''" by simp
  have rs: "resp_status ?resp = StatusNone" by (simp add: fallback_reply_def)
  from run have run': "fst (do_request ?env sample_locals [])
       = Inr (Simple \<lparr>status_code = 200,
                       headers = lower_keys (dict_of consistent_items),
                       content = [1, 2, 3]\<rparr>)"
    by (simp add: fallback_reply_def)
  from sp lv mv rs run' show ?thesis by blast
qed

section \<open>Settings\<close>

lemma config_stripped_setting:
  "get_config env key = Inr (setting v) \<Longrightarrow> config_stripped env key = Inr (stripped v)"
  by (cases v) (simp_all add: config_stripped_def strip_def)

lemma get_proxies_settings:
  assumes "get_config env ''proxy.base_proxy_url'' = Inr (setting base)"
    and "get_config env ''proxy.asset_proxy_url'' = Inr (setting asset)"
  shows "get_proxies env = Inr (map_option proxies_for (chosen_proxy asset base))"
  by (simp add: get_proxies_def config_stripped_setting [OF assms(1)]
        config_stripped_setting [OF assms(2)] chosen_proxy_def proxies_for_def Let_def)

lemma retry_loop_first:
  assumes "\<And>h. \<exists>evs. snd (f h) = h @ ev # evs"
  shows "\<exists>evs. snd (retry_loop env n f h) = h @ ev # evs"
proof (induction n arbitrary: h)
  case 0
  show ?case using assms by simp
next
  case (Suc n)
  obtain r h1 where f: "f h = (r, h1)" by (cases "f h")
  with assms [of h] obtain evs1 where h1: "h1 = h @ ev # evs1" by auto
  show ?case
  proof (cases "\<exists>e. r = Inl e \<and> is_upstream e \<and> failure_status env e \<in> set (retry_status_codes env)")
    case True
    then obtain e where r: "r = Inl e"
      and c: "is_upstream e \<and> failure_status env e \<in> set (retry_status_codes env)"
      by blast
    from Suc.IH [of "h1 @ [Backoff]"] obtain evs2
      where "snd (retry_loop env n f (h1 @ [Backoff])) = (h1 @ [Backoff]) @ ev # evs2"
      by blast
    with f r c h1 show ?thesis by simp
  next
    case False
    with f have "retry_loop env (Suc n) f h = (r, h1)"
      by (cases r) auto
    with h1 show ?thesis by simp
  qed
qed

lemma request_extends:
  "\<exists>extra. snd (request env session token p h) = snd (request_body env session token p h) @ extra
          \<and> list_all (\<lambda>ev. \<not> is_transport ev) extra"
proof (cases "request_body env session token p h")
  case (Pair r h1)
  show ?thesis
  proof (cases r)
    case (Inr x)
    with Pair show ?thesis by (simp add: request_def)
  next
    case (Inl e)
    with Pair show ?thesis
      by (cases e) (simp_all add: request_def Let_def split: option.splits)
  qed
qed

lemma request_first_call:
  assumes "get_proxies env = Inr proxies"
    and "guess_content_type env (normalize_path p) = Inr ct"
    and "build_headers env token ct ''https://assets.grok.com'' ''https://grok.com/'' = Inr built"
    and "get_config env ''asset.download_timeout'' = Inr timeout"
    and "get_config env ''proxy.browser'' = Inr browser"
  shows "\<exists>evs. snd (request env session token p h)
           = h @ SessionGet (DOWNLOAD_API @ normalize_path p)
                   \<lparr>kw_headers = navigation_headers built, kw_timeout = timeout,
                    kw_allow_redirects = True, kw_stream = True, kw_proxies = proxies,
                    kw_impersonate = (if truthy browser then Some browser else None)\<rparr> # evs"
proof -
  let ?L = "\<lparr>l_session = session, l_url = DOWNLOAD_API @ normalize_path p,
             l_headers = navigation_headers built, l_timeout = timeout,
             l_proxies = proxies, l_browser = browser\<rparr>"
  have kw: "single_get_kwargs ?L True True
              = \<lparr>kw_headers = navigation_headers built, kw_timeout = timeout,
                 kw_allow_redirects = True, kw_stream = True, kw_proxies = proxies,
                 kw_impersonate = (if truthy browser then Some browser else None)\<rparr>"
    by (cases proxies) (simp_all add: single_get_kwargs_def)
  have "\<exists>evs. snd (retry_loop env (max_attempts env - 1) (do_request env ?L) h)
               = h @ SessionGet (l_url ?L) (single_get_kwargs ?L True True) # evs"
    by (rule retry_loop_first) (rule do_request_first)
  then obtain evs where "snd (request_body env session token p h)
               = h @ SessionGet (l_url ?L) (single_get_kwargs ?L True True) # evs"
    unfolding request_body_run [OF assms] retry_on_status_def by blast
  with request_extends [of env session token p h] kw show ?thesis by auto
qed


text \<open>
  Claim C6. With each of the two proxy settings absent or a string, the proxy is the
  asset setting when it is not empty after stripping white space, else the base setting
  when that is not empty after stripping, else none; the stripped text is what is used.
  The first request of a download, the one of tier 1, is made with that proxy for both
  \<^verbatim>\<open>http\<close> and \<^verbatim>\<open>https\<close>.
\<close>

theorem proxy_precedence:
  assumes "get_config env ''proxy.base_proxy_url'' = Inr (setting base)"
    and "get_config env ''proxy.asset_proxy_url'' = Inr (setting asset)"
  shows "get_proxies env = Inr (map_option proxies_for (chosen_proxy asset base))
       \<and> (\<forall>ct built timeout browser.
             guess_content_type env (normalize_path p) = Inr ct
           \<and> build_headers env token ct ''https://assets.grok.com'' ''https://grok.com/'' = Inr built
           \<and> get_config env ''asset.download_timeout'' = Inr timeout
           \<and> get_config env ''proxy.browser'' = Inr browser \<longrightarrow>
             (\<exists>kwargs evs. snd (request env session token p h)
                 = h @ SessionGet (DOWNLOAD_API @ normalize_path p) kwargs # evs
               \<and> kw_proxies kwargs = map_option proxies_for (chosen_proxy asset base)))"
proof (intro conjI allI impI)
  show px: "get_proxies env = Inr (map_option proxies_for (chosen_proxy asset base))"
    by (rule get_proxies_settings [OF assms])
  fix ct built timeout browser
  assume a: "guess_content_type env (normalize_path p) = Inr ct
           \<and> build_headers env token ct ''https://assets.grok.com'' ''https://grok.com/'' = Inr built
           \<and> get_config env ''asset.download_timeout'' = Inr timeout
           \<and> get_config env ''proxy.browser'' = Inr browser"
  then have g: "guess_content_type env (normalize_path p) = Inr ct"
    and b: "build_headers env token ct ''https://assets.grok.com'' ''https://grok.com/'' = Inr built"
    and t: "get_config env ''asset.download_timeout'' = Inr timeout"
    and br: "get_config env ''proxy.browser'' = Inr browser"
    by simp_all
  from request_first_call [OF px g b t br, of session h]
  obtain evs where "snd (request env session token p h)
           = h @ SessionGet (DOWNLOAD_API @ normalize_path p)
                   \<lparr>kw_headers = navigation_headers built, kw_timeout = timeout,
                    kw_allow_redirects = True, kw_stream = True,
                    kw_proxies = map_option proxies_for (chosen_proxy asset base),
                    kw_impersonate = (if truthy browser then Some browser else None)\<rparr> # evs"
    by blast
  moreover have "kw_proxies \<lparr>kw_headers = navigation_headers built, kw_timeout = timeout,
                    kw_allow_redirects = True, kw_stream = True,
                    kw_proxies = map_option proxies_for (chosen_proxy asset base),
                    kw_impersonate = (if truthy browser then Some browser else None)\<rparr>
                  = map_option proxies_for (chosen_proxy asset base)"
    by simp
  ultimately show "\<exists>kwargs evs. snd (request env session token p h)
                 = h @ SessionGet (DOWNLOAD_API @ normalize_path p) kwargs # evs
               \<and> kw_proxies kwargs = map_option proxies_for (chosen_proxy asset base)"
    by blast
qed

lemma strip_samples:
  "strip ''  http://asset:2 '' = ''http://asset:2''"
  "strip ''http://base:1'' = ''http://base:1''"
  "strip ''   '' = []"
  by (simp_all add: strip_def py_isspace_def)

theorem proxy_precedence_witness:
  "get_config proxied_env ''proxy.base_proxy_url'' = Inr (setting (Some ''http://base:1''))
   \<and> get_config proxied_env ''proxy.asset_proxy_url'' = Inr (setting (Some ''  http://asset:2 ''))
   \<and> get_proxies proxied_env = Inr (Some [(''http'', ''http://asset:2''), (''https'', ''http://asset:2'')])
   \<and> get_config base_only_env ''proxy.base_proxy_url'' = Inr (setting (Some ''http://base:1''))
   \<and> get_config base_only_env ''proxy.asset_proxy_url'' = Inr (setting (Some ''   ''))
   \<and> get_proxies base_only_env = Inr (Some [(''http'', ''http://base:1''), (''https'', ''http://base:1'')])
   \<and> get_config absent_env ''proxy.base_proxy_url'' = Inr (setting None)
   \<and> get_config absent_env ''proxy.asset_proxy_url'' = Inr (setting None)
   \<and> get_proxies absent_env = Inr None
   \<and> (\<exists>kwargs evs. snd (request proxied_env (answering_session 200) ''tok'' ''a.png'' [])
          = [] @ SessionGet (DOWNLOAD_API @ normalize_path ''a.png'') kwargs # evs
        \<and> kw_proxies kwargs = Some [(''http'', ''http://asset:2''), (''https'', ''http://asset:2'')])"
proof -
  have b1: "get_config proxied_env ''proxy.base_proxy_url'' = Inr (setting (Some ''http://base:1''))"
    and a1: "get_config proxied_env ''proxy.asset_proxy_url'' = Inr (setting (Some ''  http://asset:2 ''))"
    by (simp_all add: proxied_env_def library_env_def sample_config_def)
  have b2: "get_config base_only_env ''proxy.base_proxy_url'' = Inr (setting (Some ''http://base:1''))"
    and a2: "get_config base_only_env ''proxy.asset_proxy_url'' = Inr (setting (Some ''   ''))"
    by (simp_all add: base_only_env_def library_env_def sample_config_def)
  have b3: "get_config absent_env ''proxy.base_proxy_url'' = Inr (setting None)"
    and a3: "get_config absent_env ''proxy.asset_proxy_url'' = Inr (setting None)"
    by (simp_all add: absent_env_def library_env_def sample_config_def)
  from proxy_precedence [OF b1 a1, THEN conjunct1]
  have p1: "get_proxies proxied_env
              = Inr (Some [(''http'', ''http://asset:2''), (''https'', ''http://asset:2'')])"
    by (simp add: chosen_proxy_def proxies_for_def strip_samples)
  from proxy_precedence [OF b2 a2, THEN conjunct1]
  have p2: "get_proxies base_only_env
              = Inr (Some [(''http'', ''http://base:1''), (''https'', ''http://base:1'')])"
    by (simp add: chosen_proxy_def proxies_for_def strip_samples)
  from proxy_precedence [OF b3 a3, THEN conjunct1]
  have p3: "get_proxies absent_env = Inr None"
    by (simp add: chosen_proxy_def)
  have g: "guess_content_type proxied_env (normalize_path ''a.png'')
             = Inr (content_type_of_suffix (sample_suffix (normalize_path ''a.png'')))"
    by (simp add: guess_content_type_def proxied_env_def library_env_def)
  have bh: "build_headers proxied_env ''tok'' (content_type_of_suffix (sample_suffix (normalize_path ''a.png'')))
              ''https://assets.grok.com'' ''https://grok.com/''
            = Inr [(''Cookie'', ''sso='' @ ''tok''), (''Origin'', ''https://assets.grok.com''),
                   (''Referer'', ''https://grok.com/'')]"
    by (simp add: proxied_env_def library_env_def sample_build_headers_def)
  have t: "get_config proxied_env ''asset.download_timeout'' = Inr (PInt 30)"
    and br: "get_config proxied_env ''proxy.browser'' = Inr (PStr ''chrome136'')"
    by (simp_all add: proxied_env_def library_env_def sample_config_def)
  from proxy_precedence [OF b1 a1, THEN conjunct2, rule_format,
      OF conjI [OF g conjI [OF bh conjI [OF t br]]], of "answering_session 200" "[]"]
  have r: "\<exists>kwargs evs. snd (request proxied_env (answering_session 200) ''tok'' ''a.png'' [])
          = [] @ SessionGet (DOWNLOAD_API @ normalize_path ''a.png'') kwargs # evs
        \<and> kw_proxies kwargs = Some [(''http'', ''http://asset:2''), (''https'', ''http://asset:2'')]"
    by (simp add: chosen_proxy_def proxies_for_def strip_samples)
  from b1 a1 p1 b2 a2 p2 b3 a3 p3 r show ?thesis by (intro conjI)
qed









lemma content_type_keys:
  "lower ''.jpg'' = ''.jpg''" "lower ''.jpeg'' = ''.jpeg''" "lower ''.png'' = ''.png''"
  "lower ''.webp'' = ''.webp''" "lower ''.mp4'' = ''.mp4''" "lower ''.webm'' = ''.webm''"
  by code_simp+

lemma content_type_keys_lower: "(k, v) \<in> set CONTENT_TYPES \<Longrightarrow> lower k = k"
  by (auto simp: CONTENT_TYPES_def content_type_keys)

lemma content_type_keys_distinct: "distinct (map fst CONTENT_TYPES)"
  by (simp add: CONTENT_TYPES_def)

text \<open>
  Claim C10. The content type is looked up under the lowercased suffix: two suffixes
  that agree after lowercasing get the same hint, a suffix that differs from a key of
  the table only in letter case gets the hint of that key, and a suffix whose lowercase
  is no key gets none. The hint of a path is the hint of the suffix of its URL path.
\<close>

theorem content_type_ignores_case:
  "(lower s = lower s' \<longrightarrow> content_type_of_suffix s = content_type_of_suffix s')
   \<and> (\<forall>(k, v) \<in> set CONTENT_TYPES. lower s = lower k \<longrightarrow> content_type_of_suffix s = Some v)
   \<and> (lower s \<notin> fst ` set CONTENT_TYPES \<longrightarrow> content_type_of_suffix s = None)
   \<and> (\<forall>q. urlparse_path env p = Inr q \<longrightarrow>
          guess_content_type env p = Inr (content_type_of_suffix (path_suffix env q)))"
proof (intro conjI)
  show "lower s = lower s' \<longrightarrow> content_type_of_suffix s = content_type_of_suffix s'"
    by (simp add: content_type_of_suffix_def)
  show "\<forall>(k, v) \<in> set CONTENT_TYPES. lower s = lower k \<longrightarrow> content_type_of_suffix s = Some v"
  proof (intro ballI, clarify)
    fix k v
    assume kv: "(k, v) \<in> set CONTENT_TYPES" and l: "lower s = lower k"
    from kv have "map_of CONTENT_TYPES k = Some v"
      by (simp add: map_of_is_SomeI content_type_keys_distinct)
    with l content_type_keys_lower [OF kv] show "content_type_of_suffix s = Some v"
      by (simp add: content_type_of_suffix_def)
  qed
  show "lower s \<notin> fst ` set CONTENT_TYPES \<longrightarrow> content_type_of_suffix s = None"
    by (simp add: content_type_of_suffix_def map_of_eq_None_iff)
  show "\<forall>q. urlparse_path env p = Inr q \<longrightarrow>
          guess_content_type env p = Inr (content_type_of_suffix (path_suffix env q))"
    by (simp add: guess_content_type_def)
qed

lemma lower_suffix_samples:
  "lower ''.PNG'' = ''.png''" "lower ''.Jpeg'' = ''.jpeg''" "lower ''.TXT'' = ''.txt''"
  by code_simp+

theorem content_type_ignores_case_witness:
  "(''.png'', ''image/png'') \<in> set CONTENT_TYPES
   \<and> lower ''.PNG'' = lower ''.png''
   \<and> content_type_of_suffix ''.PNG'' = Some ''image/png''
   \<and> content_type_of_suffix ''.PNG'' = content_type_of_suffix ''.png''
   \<and> (''.jpeg'', ''image/jpeg'') \<in> set CONTENT_TYPES
   \<and> lower ''.Jpeg'' = lower ''.jpeg''
   \<and> content_type_of_suffix ''.Jpeg'' = Some ''image/jpeg''
   \<and> lower ''.TXT'' \<notin> fst ` set CONTENT_TYPES
   \<and> content_type_of_suffix ''.TXT'' = None
   \<and> urlparse_path unauthorized_env ''/a/B.PNG'' = Inr ''/a/B.PNG''
   \<and> path_suffix unauthorized_env ''/a/B.PNG'' = ''.PNG''
   \<and> guess_content_type unauthorized_env ''/a/B.PNG'' = Inr (Some ''image/png'')"
proof -
  have m: "(''.png'', ''image/png'') \<in> set CONTENT_TYPES"
    and m': "(''.jpeg'', ''image/jpeg'') \<in> set CONTENT_TYPES"
    by (simp_all add: CONTENT_TYPES_def)
  have l: "lower ''.PNG'' = lower ''.png''" and l': "lower ''.Jpeg'' = lower ''.jpeg''"
    by (simp_all add: lower_suffix_samples content_type_keys)
  have n: "lower ''.TXT'' \<notin> fst ` set CONTENT_TYPES"
    by (simp add: lower_suffix_samples CONTENT_TYPES_def)
  have u: "urlparse_path unauthorized_env ''/a/B.PNG'' = Inr ''/a/B.PNG''"
    by (simp add: unauthorized_env_def library_env_def)
  have x: "path_suffix unauthorized_env ''/a/B.PNG'' = ''.PNG''"
    by (simp add: unauthorized_env_def library_env_def sample_suffix_def)
  note at_png = content_type_ignores_case [of "''.PNG''" "''.png''" unauthorized_env "''/a/B.PNG''"]
  note at_jpeg = content_type_ignores_case [of "''.Jpeg''" "''.jpeg''" unauthorized_env "''/a/B.PNG''"]
  note at_txt = content_type_ignores_case [of "''.TXT''" "''.png''" unauthorized_env "''/a/B.PNG''"]
  from at_png m l have a: "content_type_of_suffix ''.PNG'' = Some ''image/png''" by blast
  from at_png l have b: "content_type_of_suffix ''.PNG'' = content_type_of_suffix ''.png''" by blast
  from at_jpeg m' l' have a': "content_type_of_suffix ''.Jpeg'' = Some ''image/jpeg''" by blast
  from at_txt n have c: "content_type_of_suffix ''.TXT'' = None" by blast
  from at_png u have "guess_content_type unauthorized_env ''/a/B.PNG''
                     = Inr (content_type_of_suffix (path_suffix unauthorized_env ''/a/B.PNG''))"
    by blast
  with x a have d: "guess_content_type unauthorized_env ''/a/B.PNG'' = Inr (Some ''image/png'')"
    by simp
  from m l a b m' l' a' n c u x d show ?thesis by (intro conjI)
qed

end
